theory Spec2Isabelle
  imports Complex_Main
begin

section \<open>ingest\_cmorph\_daily\_complete.py: a shallow embedding\<close>

text \<open>
  The module converts daily binary CMORPH precipitation grids into one NetCDF file of
  monthly sums. Source functions keep their names without the leading underscore
  (an Isabelle name cannot start with one): \<open>_compute_days\<close> is \<open>compute_days\<close>,
  \<open>_read_description\<close> is \<open>read_description\<close>, and so on.

  Every \<open>raise\<close> of the source, and every exception raised by a Python or numpy
  operation it calls, is a value \<open>Inl e\<close> of the result type \<open>error + 'a\<close>.
\<close>

datatype error = ValueError | TypeError | IndexError | KeyError | OSError

subsection \<open>Sequencing of fallible steps\<close>

text \<open>An exception leaves the enclosing function at once: \<open>and_then\<close> runs the next
  step only on a result.\<close>

definition and_then :: "error + 'a \<Rightarrow> ('a \<Rightarrow> error + 'b) \<Rightarrow> error + 'b" where
  "and_then m f = (case m of Inl e \<Rightarrow> Inl e | Inr x \<Rightarrow> f x)"

text \<open>Whether a step gave a result rather than an exception.\<close>

definition returns :: "error + 'a \<Rightarrow> bool" where
  "returns r = (case r of Inl e \<Rightarrow> False | Inr x \<Rightarrow> True)"

text \<open>\<open>d[key]\<close> on a dictionary raises KeyError when the key is absent.\<close>

definition getitem :: "'a option \<Rightarrow> error + 'a" where
  "getitem v = (case v of None \<Rightarrow> Inl KeyError | Some x \<Rightarrow> Inr x)"

subsection \<open>Calendar dates\<close>

text \<open>
  \<open>datetime(year, month, day)\<close> checks its arguments: the year lies in
  \<open>MINYEAR .. MAXYEAR\<close> (1 .. 9999), the month in 1 .. 12 and the day in the month;
  otherwise it raises ValueError. The time of day is always midnight in this program
  and is left out of the record.
\<close>

record datetime =
  dt_year :: int
  dt_month :: int
  dt_day :: int

definition isleap :: "int \<Rightarrow> bool" where
  "isleap y = (y mod 4 = 0 \<and> (y mod 100 \<noteq> 0 \<or> y mod 400 = 0))"

definition MONTH_DAYS_NONLEAP :: "int list" where
  "MONTH_DAYS_NONLEAP = [31, 28, 31, 30, 31, 30, 31, 31, 30, 31, 30, 31]"

definition MONTH_DAYS_LEAP :: "int list" where
  "MONTH_DAYS_LEAP = [31, 29, 31, 30, 31, 30, 31, 31, 30, 31, 30, 31]"

definition days_in_month :: "int \<Rightarrow> int \<Rightarrow> int" where
  "days_in_month y m =
     (if isleap y then MONTH_DAYS_LEAP else MONTH_DAYS_NONLEAP) ! nat (m - 1)"

definition mk_datetime :: "int \<Rightarrow> int \<Rightarrow> int \<Rightarrow> error + datetime" where
  "mk_datetime y m d =
     (if 1 \<le> y \<and> y \<le> 9999 \<and> 1 \<le> m \<and> m \<le> 12 \<and> 1 \<le> d \<and> d \<le> days_in_month y m
      then Inr \<lparr>dt_year = y, dt_month = m, dt_day = d\<rparr>
      else Inl ValueError)"

text \<open>
  \<open>datetime.__sub__\<close> takes a datetime or a timedelta on the right, and
  \<open>datetime.__add__\<close> a timedelta. For an \<open>int\<close> operand both return
  \<open>NotImplemented\<close>, so does the reflected method of \<open>int\<close>, and the interpreter
  raises TypeError. In \<open>_compute_days\<close> the right operand is an \<open>int\<close> at both
  places (\<open>data_day_initial\<close> is the attribute \<open>.day\<close>, and \<open>i\<close> ranges over
  \<open>range(total_days)\<close>), so the operation is modelled at that operand type.
  \<open>timedelta_days\<close> is the attribute \<open>.days\<close> of the difference.
\<close>

datatype timedelta = Timedelta (timedelta_days: int)

definition datetime_sub_int :: "datetime \<Rightarrow> int \<Rightarrow> error + timedelta" where
  "datetime_sub_int d n = Inl TypeError"

definition datetime_add_int :: "datetime \<Rightarrow> int \<Rightarrow> error + int" where
  "datetime_add_int d n = Inl TypeError"

subsection \<open>The time axis: \<open>_compute_days\<close> (lines 161-196)\<close>

text \<open>
  \<open>np.empty(n, dtype=int)\<close> raises ValueError for a negative \<open>n\<close>; the content of
  the new array is arbitrary and is overwritten by the loop, so it is zero here.
\<close>

definition np_empty :: "int \<Rightarrow> error + int list" where
  "np_empty n = (if n < 0 then Inl ValueError else Inr (replicate (nat n) 0))"

text \<open>The loop \<open>for i in range(total_days): days[i] = units_day_start + i\<close>.\<close>

fun fill_days :: "datetime \<Rightarrow> nat list \<Rightarrow> int list \<Rightarrow> error + int list" where
  "fill_days units_day_start [] days = Inr days"
| "fill_days units_day_start (i # rest) days =
     and_then (datetime_add_int units_day_start (int i)) (\<lambda>v.
       fill_days units_day_start rest (days[i := v]))"

definition compute_days :: "int \<Rightarrow> int \<Rightarrow> int \<Rightarrow> error + int list" where
  "compute_days year_initial year_final year_since =
     (if year_initial < year_since then Inl ValueError
      else
        and_then (mk_datetime year_initial 1 1) (\<lambda>d0.
          let data_day_initial = dt_day d0 in
          and_then (mk_datetime year_final 12 31) (\<lambda>d1.
          and_then (datetime_sub_int d1 data_day_initial) (\<lambda>delta.
            let total_days = timedelta_days delta in
            and_then (mk_datetime year_since 1 1) (\<lambda>units_day_start.
            and_then (np_empty total_days) (\<lambda>days.
              fill_days units_day_start [0 ..< nat total_days] days))))))"

subsection \<open>Python strings\<close>

text \<open>
  A string is the list of its code points; the model covers code points below 256.
  \<open>isspace\<close> is \<open>str.isspace\<close> there: U+0009 to U+000D, U+001C to U+0020, U+0085
  and U+00A0.
\<close>

definition isspace :: "char \<Rightarrow> bool" where
  "isspace c = (let n = (of_char c :: nat) in
     (9 \<le> n \<and> n \<le> 13) \<or> (28 \<le> n \<and> n \<le> 32) \<or> n = 133 \<or> n = 160)"

definition isdigit :: "char \<Rightarrow> bool" where
  "isdigit c = (let n = (of_char c :: nat) in 48 \<le> n \<and> n \<le> 57)"

definition digit_value :: "char \<Rightarrow> int" where
  "digit_value c = int (of_char c) - 48"

text \<open>\<open>s.split()\<close>: the maximal runs of non-whitespace characters, in order.\<close>

fun split_from :: "string \<Rightarrow> string \<Rightarrow> string list" where
  "split_from cur [] = (if cur = [] then [] else [cur])"
| "split_from cur (c # cs) =
     (if isspace c then (if cur = [] then split_from [] cs else cur # split_from [] cs)
      else split_from (cur @ [c]) cs)"

definition str_split :: "string \<Rightarrow> string list" where
  "str_split s = split_from [] s"

text \<open>\<open>' '.join(ws)\<close>.\<close>

fun str_join :: "string list \<Rightarrow> string" where
  "str_join [] = []"
| "str_join [w] = w"
| "str_join (w # v # ws) = w @ '' '' @ str_join (v # ws)"

text \<open>\<open>ws[i]\<close> for a non-negative literal index \<open>i\<close>: IndexError beyond the end.\<close>

definition item :: "'a list \<Rightarrow> nat \<Rightarrow> error + 'a" where
  "item ws i = (if i < length ws then Inr (ws ! i) else Inl IndexError)"

text \<open>
  \<open>s[-a:-b]\<close> for positive literals \<open>a\<close>, \<open>b\<close>: both bounds count from the end and
  are clipped at the start of the string, as the truncating subtraction of \<open>nat\<close> does.
  A slice never raises.
\<close>

definition slice_from_end :: "nat \<Rightarrow> nat \<Rightarrow> 'a list \<Rightarrow> 'a list" where
  "slice_from_end a b s = drop (length s - a) (take (length s - b) s)"

text \<open>
  \<open>int(s)\<close> on a string, base ten: surrounding whitespace is dropped, one sign may
  come first, then decimal digits, where single underscores may stand between digits.
  Anything else raises ValueError. The whitespace that \<open>int\<close> drops is not that
  of \<open>str.isspace\<close>: below 256 it is U+0009 to U+000D, U+0020, U+0085 and U+00A0,
  and the separators U+001C to U+001F raise ValueError. (The interpreter's configurable
  limit on the number of digits is not modelled.)
\<close>

definition int_space :: "char \<Rightarrow> bool" where
  "int_space c = (let n = (of_char c :: nat) in
     (9 \<le> n \<and> n \<le> 13) \<or> n = 32 \<or> n = 133 \<or> n = 160)"

definition strip :: "string \<Rightarrow> string" where
  "strip s = rev (dropWhile int_space (rev (dropWhile int_space s)))"

fun int_digits :: "int \<Rightarrow> string \<Rightarrow> error + int" where
  "int_digits acc [] = Inr acc"
| "int_digits acc [c] = (if isdigit c then Inr (10 * acc + digit_value c) else Inl ValueError)"
| "int_digits acc (c # d # ds) =
     (if isdigit c then int_digits (10 * acc + digit_value c) (d # ds)
      else if c = CHR ''_'' \<and> isdigit d then int_digits (10 * acc + digit_value d) ds
      else Inl ValueError)"

definition int_unsigned :: "string \<Rightarrow> error + int" where
  "int_unsigned s =
     (case s of
        [] \<Rightarrow> Inl ValueError
      | c # cs \<Rightarrow> if isdigit c then int_digits (digit_value c) cs else Inl ValueError)"

definition py_int :: "string \<Rightarrow> error + int" where
  "py_int s =
     (case strip s of
        [] \<Rightarrow> Inl ValueError
      | c # cs \<Rightarrow>
          if c = CHR ''-'' then and_then (int_unsigned cs) (\<lambda>n. Inr (- n))
          else if c = CHR ''+'' then int_unsigned cs
          else int_unsigned (c # cs))"

subsection \<open>The environment\<close>

text \<open>
  What the program asks of the interpreter's library, of numpy and of the operating
  system is a parameter of the model, a record of operations over a state \<open>'w\<close> of
  the outside world (local files, the FTP server). The theorems hold for every such
  record.
  \<^item> \<open>py_float\<close> is \<open>float(s)\<close> on a string, and \<open>strptime\<close> is
    \<open>datetime.strptime(s, '%d%b%Y')\<close>; both raise ValueError on a malformed string.
    Floating-point values are real numbers in the model: rounding, infinities and NaN
    are outside it.
  \<^item> \<open>open_lines\<close> opens a text file for reading and gives the lines that iterating
    over it yields.
  \<^item> \<open>os_listdir\<close> is \<open>os.listdir\<close>, \<open>os_sep\<close> is \<open>os.sep\<close>, \<open>os_remove\<close> is
    \<open>os.remove\<close>.
  \<^item> \<open>np_fromfile\<close> is \<open>np.fromfile(path, 'f')\<close>: every 4-byte element that the
    file holds, in the machine's byte order; \<open>np_byteswap\<close> is what
    \<open>ndarray.byteswap\<close> does to one such element.
  \<^item> \<open>urlretrieve\<close> is \<open>urllib.request.urlretrieve(url, path)\<close>;
    \<open>bz2_extract src dst\<close> and \<open>gzip_extract src dst\<close> are the two \<open>with\<close>
    blocks that open the compressed file \<open>src\<close>, open \<open>dst\<close> for writing and copy
    the decompressed content.
  \<^item> \<open>nc_create\<close> is \<open>netCDF4.Dataset(path, 'w')\<close>. The open dataset is the list
    of the operations performed on it so far (\<open>nc_op\<close>: dimensions, attributes,
    variables and assignments, each taken to succeed); \<open>nc_close\<close> stores it when the
    \<open>with\<close> block is left, by its end or by an exception.
  An operation that changes the outside world returns the new world also when it fails.
\<close>

datatype nc_op =
    CreateDimension string "int option"
  | SetTitle string
  | CreateVariable string string "string list" "real option"
  | SetAttr string string string
  | AssignTime "int list"
  | AssignLon "real list"
  | AssignLat "real list"
  | AssignSlice int "real list"

record 'w sys =
  py_float :: "string \<Rightarrow> error + real"
  strptime :: "string \<Rightarrow> error + datetime"
  open_lines :: "string \<Rightarrow> 'w \<Rightarrow> error + string list"
  os_listdir :: "string \<Rightarrow> 'w \<Rightarrow> error + string list"
  os_sep :: string
  np_fromfile :: "string \<Rightarrow> 'w \<Rightarrow> error + real list"
  np_byteswap :: "real \<Rightarrow> real"
  os_remove :: "string \<Rightarrow> 'w \<Rightarrow> (error + unit) \<times> 'w"
  urlretrieve :: "string \<Rightarrow> string \<Rightarrow> 'w \<Rightarrow> (error + unit) \<times> 'w"
  bz2_extract :: "string \<Rightarrow> string \<Rightarrow> 'w \<Rightarrow> (error + unit) \<times> 'w"
  gzip_extract :: "string \<Rightarrow> string \<Rightarrow> 'w \<Rightarrow> (error + unit) \<times> 'w"
  nc_create :: "string \<Rightarrow> 'w \<Rightarrow> (error + unit) \<times> 'w"
  nc_close :: "string \<Rightarrow> nc_op list \<Rightarrow> 'w \<Rightarrow> 'w"

subsection \<open>The descriptor: \<open>_read_description\<close> (lines 307-353)\<close>

text \<open>
  The function builds a dictionary that holds a key only once a line has set it. The
  keys and the types of their values are fixed by the function, so the dictionary is
  a record with one optional field for each key: \<open>None\<close> is an absent key.
\<close>

record data_desc =
  undef :: "real option"
  xdef_count :: "int option"
  xdef_start :: "real option"
  xdef_increment :: "real option"
  ydef_count :: "int option"
  ydef_start :: "real option"
  ydef_increment :: "real option"
  start_date :: "datetime option"
  little_endian :: "bool option"
  variable_description :: "string option"
  title :: "string option"

definition empty_dict :: data_desc where
  "empty_dict = \<lparr>undef = None, xdef_count = None, xdef_start = None, xdef_increment = None,
     ydef_count = None, ydef_start = None, ydef_increment = None, start_date = None,
     little_endian = None, variable_description = None, title = None\<rparr>"

text \<open>The body of the loop over the lines (lines 330-351).\<close>

definition read_line :: "'w sys \<Rightarrow> string \<Rightarrow> data_desc \<Rightarrow> error + data_desc" where
  "read_line sys line data_dict =
     (let words = str_split line in
      and_then (item words 0) (\<lambda>w0.
        if w0 = ''UNDEF'' then
          and_then (item words 1) (\<lambda>w1. and_then (py_float sys w1) (\<lambda>v.
            Inr (data_dict\<lparr>undef := Some v\<rparr>)))
        else if w0 = ''XDEF'' then
          and_then (item words 1) (\<lambda>w1. and_then (py_int w1) (\<lambda>n.
          and_then (item words 3) (\<lambda>w3. and_then (py_float sys w3) (\<lambda>s.
          and_then (item words 4) (\<lambda>w4. and_then (py_float sys w4) (\<lambda>i.
            Inr (data_dict\<lparr>xdef_count := Some n, xdef_start := Some s,
                            xdef_increment := Some i\<rparr>)))))))
        else if w0 = ''YDEF'' then
          and_then (item words 1) (\<lambda>w1. and_then (py_int w1) (\<lambda>n.
          and_then (item words 3) (\<lambda>w3. and_then (py_float sys w3) (\<lambda>s.
          and_then (item words 4) (\<lambda>w4. and_then (py_float sys w4) (\<lambda>i.
            Inr (data_dict\<lparr>ydef_count := Some n, ydef_start := Some s,
                            ydef_increment := Some i\<rparr>)))))))
        else if w0 = ''TDEF'' then
          and_then (item words 3) (\<lambda>w3. and_then (strptime sys w3) (\<lambda>d.
            Inr (data_dict\<lparr>start_date := Some d\<rparr>)))
        else if w0 = ''OPTIONS'' then
          and_then (item words 2) (\<lambda>w2.
            if w2 = ''big_endian'' then Inr (data_dict\<lparr>little_endian := Some False\<rparr>)
            else Inr (data_dict\<lparr>little_endian := Some True\<rparr>))
        else if w0 = ''cmorph'' then
          Inr (data_dict\<lparr>variable_description := Some (str_join (drop 4 words))\<rparr>)
        else if w0 = ''TITLE'' then
          Inr (data_dict\<lparr>title := Some (str_join (drop 1 words))\<rparr>)
        else Inr data_dict))"

fun read_lines :: "'w sys \<Rightarrow> string list \<Rightarrow> data_desc \<Rightarrow> error + data_desc" where
  "read_lines sys [] data_dict = Inr data_dict"
| "read_lines sys (line # rest) data_dict =
     and_then (read_line sys line data_dict) (\<lambda>d. read_lines sys rest d)"

definition read_description :: "'w sys \<Rightarrow> string \<Rightarrow> 'w \<Rightarrow> error + data_desc" where
  "read_description sys descriptor_file w =
     and_then (open_lines sys descriptor_file w) (\<lambda>lines. read_lines sys lines empty_dict)"

subsection \<open>Monthly sums: \<open>_read_daily_cmorph_to_monthly_sum\<close> (lines 31-60)\<close>

text \<open>\<open>np.zeros((n,))\<close> raises ValueError for a negative \<open>n\<close>.\<close>

definition np_zeros :: "int \<Rightarrow> error + real list" where
  "np_zeros n = (if n < 0 then Inl ValueError else Inr (replicate (nat n) 0))"

text \<open>
  \<open>summed_data += data\<close> on one-dimensional arrays. numpy broadcasts the right
  operand to the shape of the left one, which the in-place operation keeps: arrays of
  equal length are added element by element, an array of length one is added to every
  element, and any other pair of lengths raises ValueError.
\<close>

definition np_iadd :: "real list \<Rightarrow> real list \<Rightarrow> error + real list" where
  "np_iadd summed_data data =
     (if length data = length summed_data then Inr (map2 (+) summed_data data)
      else if length data = 1 then Inr (map (\<lambda>s. s + hd data) summed_data)
      else Inl ValueError)"

text \<open>\<open>data[data < 0] = 0.0\<close>.\<close>

definition zero_negative :: "real list \<Rightarrow> real list" where
  "zero_negative data = map (\<lambda>x. if x < 0 then 0 else x) data"

text \<open>
  Reading one daily file (lines 48-55): the elements of the file, byte-swapped unless
  the descriptor says little endian, and with the negative ones set to zero when the
  descriptor's \<open>undef\<close> is negative.
\<close>

definition read_daily_grid :: "'w sys \<Rightarrow> 'w \<Rightarrow> data_desc \<Rightarrow> string \<Rightarrow> error + real list" where
  "read_daily_grid sys w data_desc path =
     and_then (np_fromfile sys path w) (\<lambda>data.
     and_then (getitem (little_endian data_desc)) (\<lambda>le.
       let data = (if \<not> le then map (np_byteswap sys) data else data) in
       and_then (getitem (undef data_desc)) (\<lambda>u.
         Inr (if u < 0 then zero_negative data else data))))"

text \<open>The loop over the directory listing (lines 38-58).\<close>

fun sum_files :: "'w sys \<Rightarrow> 'w \<Rightarrow> string \<Rightarrow> data_desc \<Rightarrow> int \<Rightarrow> int \<Rightarrow> string list \<Rightarrow>
    real list \<Rightarrow> error + real list" where
  "sum_files sys w cmorph_dir data_desc data_year data_month [] summed_data = Inr summed_data"
| "sum_files sys w cmorph_dir data_desc data_year data_month (cmorph_file # rest) summed_data =
     and_then (py_int (slice_from_end 8 4 cmorph_file)) (\<lambda>file_year.
     and_then (py_int (slice_from_end 4 2 cmorph_file)) (\<lambda>file_month.
       if file_year \<noteq> data_year then
         sum_files sys w cmorph_dir data_desc data_year data_month rest summed_data
       else if file_month \<noteq> data_month then
         sum_files sys w cmorph_dir data_desc data_year data_month rest summed_data
       else
         and_then (read_daily_grid sys w data_desc (cmorph_dir @ os_sep sys @ cmorph_file))
           (\<lambda>data.
         and_then (np_iadd summed_data data) (\<lambda>summed_data'.
           sum_files sys w cmorph_dir data_desc data_year data_month rest summed_data'))))"

definition read_daily_cmorph_to_monthly_sum ::
    "'w sys \<Rightarrow> 'w \<Rightarrow> string \<Rightarrow> data_desc \<Rightarrow> int \<Rightarrow> int \<Rightarrow> error + real list" where
  "read_daily_cmorph_to_monthly_sum sys w cmorph_dir data_desc data_year data_month =
     and_then (getitem (xdef_count data_desc)) (\<lambda>xc.
     and_then (getitem (ydef_count data_desc)) (\<lambda>yc.
     and_then (np_zeros (xc * yc)) (\<lambda>summed_data.
     and_then (os_listdir sys cmorph_dir w) (\<lambda>files.
       sum_files sys w cmorph_dir data_desc data_year data_month files summed_data))))"

subsection \<open>Programs with effects\<close>

text \<open>
  The functions that change files run in a state \<open>'s\<close>: the outside world, and in
  \<open>ingest_cmorph_to_netcdf\<close> the world together with the operations performed on the
  open dataset. A program gives \<open>None\<close> when it never ends, and otherwise its result
  or exception with the state it leaves.
\<close>

type_synonym ('s, 'a) prog = "'s \<Rightarrow> ((error + 'a) \<times> 's) option"

definition io_return :: "'a \<Rightarrow> ('s, 'a) prog" where
  "io_return x = (\<lambda>s. Some (Inr x, s))"

definition io_bind :: "('s, 'a) prog \<Rightarrow> ('a \<Rightarrow> ('s, 'b) prog) \<Rightarrow> ('s, 'b) prog" where
  "io_bind m f = (\<lambda>s. case m s of
       None \<Rightarrow> None
     | Some (Inl e, s') \<Rightarrow> Some (Inl e, s')
     | Some (Inr x, s') \<Rightarrow> f x s')"

definition io_lift :: "error + 'a \<Rightarrow> ('s, 'a) prog" where
  "io_lift r = (\<lambda>s. Some (r, s))"

definition world_op :: "('w \<Rightarrow> (error + 'a) \<times> 'w) \<Rightarrow> ('w \<times> nc_op list, 'a) prog" where
  "world_op f = (\<lambda>(w, ops). case f w of (r, w') \<Rightarrow> Some (r, (w', ops)))"

definition world_read :: "('w \<Rightarrow> error + 'a) \<Rightarrow> ('w \<times> nc_op list, 'a) prog" where
  "world_read f = (\<lambda>(w, ops). Some (f w, (w, ops)))"

definition nc :: "nc_op \<Rightarrow> ('w \<times> nc_op list, unit) prog" where
  "nc op = (\<lambda>(w, ops). Some (Inr (), (w, ops @ [op])))"

subsection \<open>Retrieval: \<open>_get_years\<close>, \<open>_download_data_descriptor\<close>,
  \<open>_download_daily_files\<close> (lines 63-158)\<close>

definition get_years :: "int list" where
  "get_years = [1998 .. 2017]"

definition file_url :: string where
  "file_url =
     ''ftp://filsrv.cicsnc.org/olivier/data_CMORPH_NIDIS/03_PGMS/CMORPH_V1.0_RAW_0.25deg-DLY_00Z.ctl''"

definition download_data_descriptor :: "'w sys \<Rightarrow> string \<Rightarrow> ('w \<times> nc_op list, unit) prog" where
  "download_data_descriptor sys data_descriptor_file =
     world_op (urlretrieve sys file_url data_descriptor_file)"

text \<open>\<open>str(n)\<close> for an integer, and \<open>s.zfill(width)\<close>, which pads after a sign.\<close>

fun nat_str :: "nat \<Rightarrow> string" where
  "nat_str n = (if n < 10 then [char_of (48 + n)]
                else nat_str (n div 10) @ [char_of (48 + n mod 10)])"

declare nat_str.simps [simp del]

definition py_str :: "int \<Rightarrow> string" where
  "py_str i = (if i < 0 then CHR ''-'' # nat_str (nat (- i)) else nat_str (nat i))"

definition zfill :: "nat \<Rightarrow> string \<Rightarrow> string" where
  "zfill width s =
     (case s of
        [] \<Rightarrow> replicate width (CHR ''0'')
      | c # cs \<Rightarrow>
          if c = CHR ''-'' \<or> c = CHR ''+''
          then c # replicate (width - length s) (CHR ''0'') @ cs
          else replicate (width - length s) (CHR ''0'') @ s)"

text \<open>\<open>xs[i]\<close> for a computed index: a negative one counts from the end.\<close>

definition py_index :: "'a list \<Rightarrow> int \<Rightarrow> error + 'a" where
  "py_index xs i =
     (if 0 \<le> i \<and> i < int (length xs) then Inr (xs ! nat i)
      else if i < 0 \<and> - i \<le> int (length xs) then Inr (xs ! nat (int (length xs) + i))
      else Inl IndexError)"

text \<open>One round of the loop over the days of the month (lines 120-156).\<close>

definition download_day ::
    "'w sys \<Rightarrow> string \<Rightarrow> int \<Rightarrow> string \<Rightarrow> string \<Rightarrow> string \<Rightarrow> nat \<Rightarrow>
     ('w \<times> nc_op list, string) prog" where
  "download_day sys destination_dir year obs_type year_month url_base day =
     (let year_month_day = year_month @ zfill 2 (py_str (int day + 1));
          filename_unzipped =
            (if obs_type = ''raw'' then ''CMORPH_V1.0_RAW_0.25deg-DLY_00Z_'' @ year_month_day
             else ''CMORPH_V1.0_ADJ_0.25deg-DLY_00Z_'' @ year_month_day);
          zip_extension = (if obs_type = ''raw'' \<and> year < 2004 then ''.gz'' else ''.bz2'');
          filename_zipped = filename_unzipped @ zip_extension;
          file_url = url_base @ ''/'' @ filename_zipped;
          local_filename_zipped = destination_dir @ ''/'' @ filename_zipped;
          local_filename_unzipped = destination_dir @ ''/'' @ filename_unzipped
      in
        io_bind (world_op (urlretrieve sys file_url local_filename_zipped)) (\<lambda>_.
        io_bind (world_op
                  (if year \<ge> 2004 \<or> obs_type = ''adjusted''
                   then bz2_extract sys local_filename_zipped local_filename_unzipped
                   else gzip_extract sys local_filename_zipped local_filename_unzipped)) (\<lambda>_.
        io_bind (world_op (os_remove sys local_filename_zipped)) (\<lambda>_.
          io_return local_filename_unzipped))))"

fun download_days ::
    "'w sys \<Rightarrow> string \<Rightarrow> int \<Rightarrow> string \<Rightarrow> string \<Rightarrow> string \<Rightarrow> nat list \<Rightarrow> string list \<Rightarrow>
     ('w \<times> nc_op list, string list) prog" where
  "download_days sys destination_dir year obs_type year_month url_base [] files =
     io_return files"
| "download_days sys destination_dir year obs_type year_month url_base (day # rest) files =
     io_bind (download_day sys destination_dir year obs_type year_month url_base day) (\<lambda>f.
       download_days sys destination_dir year obs_type year_month url_base rest (files @ [f]))"

definition download_daily_files ::
    "'w sys \<Rightarrow> string \<Rightarrow> int \<Rightarrow> int \<Rightarrow> string \<Rightarrow> ('w \<times> nc_op list, string list) prog" where
  "download_daily_files sys destination_dir year month obs_type =
     (let days_in_month = (if isleap year then MONTH_DAYS_LEAP else MONTH_DAYS_NONLEAP);
          year_month = py_str year @ zfill 2 (py_str month);
          url_base = ''ftp://filsrv.cicsnc.org/olivier/data_CMORPH_NIDIS/'' @
            (if obs_type = ''raw'' then ''02_RAW/'' @ py_str year @ ''/'' @ year_month
             else ''01_GAUGE_ADJUSTED/'' @ py_str year @ ''/'' @ year_month)
      in
        io_bind (io_lift (py_index days_in_month (month - 1))) (\<lambda>n.
          download_days sys destination_dir year obs_type year_month url_base
            [0 ..< nat n] []))"

subsection \<open>The pipeline: \<open>ingest_cmorph_to_netcdf\<close> and \<open>_frange\<close> (lines 199-304)\<close>

text \<open>
  A call \<open>_compute_days(a, b, k1=v1, k2=v2)\<close> first binds the arguments to the
  parameters \<open>year_initial\<close>, \<open>year_final\<close> and \<open>year_since\<close> (default 1900).
  The binding raises TypeError for too many positional arguments, for a keyword that
  is not the name of a parameter, for a parameter given twice and for a parameter
  without default that is not given.
\<close>

fun bind_keywords ::
    "string list \<Rightarrow> (string \<times> int) list \<Rightarrow> (string \<times> int) list \<Rightarrow> error + (string \<times> int) list" where
  "bind_keywords params bound [] = Inr bound"
| "bind_keywords params bound ((k, v) # rest) =
     (if k \<notin> set params then Inl TypeError
      else if k \<in> set (map fst bound) then Inl TypeError
      else bind_keywords params (bound @ [(k, v)]) rest)"

definition bind_arguments ::
    "string list \<Rightarrow> (string \<times> int) list \<Rightarrow> int list \<Rightarrow> (string \<times> int) list \<Rightarrow> error + int list" where
  "bind_arguments params defaults args kwargs =
     (if length params < length args then Inl TypeError
      else
        and_then (bind_keywords params (zip params args) kwargs) (\<lambda>bound.
          let given = map (\<lambda>p. case map_of bound p of
                                  Some v \<Rightarrow> Some v
                                | None \<Rightarrow> map_of defaults p) params
          in if None \<in> set given then Inl TypeError else Inr (map the given)))"

definition call_compute_days :: "int list \<Rightarrow> (string \<times> int) list \<Rightarrow> error + int list" where
  "call_compute_days args kwargs =
     and_then (bind_arguments [''year_initial'', ''year_final'', ''year_since'']
                 [(''year_since'', 1900)] args kwargs) (\<lambda>vs.
       compute_days (vs ! 0) (vs ! 1) (vs ! 2))"

text \<open>
  \<open>list(_frange(start, stop, step))\<close>. The generator does not end when
  \<open>start < stop\<close> and the step is not positive.
\<close>

partial_function (option) frange :: "real \<Rightarrow> real \<Rightarrow> real \<Rightarrow> real list option" where
  "frange i stop step =
     (if i < stop then Option.bind (frange (i + step) stop step) (\<lambda>rest. Some (i # rest))
      else Some [])"

declare frange.simps [code]

definition io_frange :: "real \<Rightarrow> real \<Rightarrow> real \<Rightarrow> ('s, real list) prog" where
  "io_frange start stop step =
     (\<lambda>s. case frange start stop step of None \<Rightarrow> None | Some xs \<Rightarrow> Some (Inr xs, s))"

text \<open>
  \<open>np.reshape(data, (1, ydef_count, xdef_count))\<close> keeps the elements in their
  order. It raises ValueError unless the product of the counts is the number of
  elements, where one count may be -1 and then stands for the quotient; no other
  negative count is accepted.
\<close>

definition np_reshape :: "real list \<Rightarrow> int \<Rightarrow> int \<Rightarrow> error + real list" where
  "np_reshape data yc xc =
     (if yc = - 1 \<and> xc = - 1 then Inl ValueError
      else if yc = - 1 then
        (if 0 < xc \<and> int (length data) mod xc = 0 then Inr data else Inl ValueError)
      else if xc = - 1 then
        (if 0 < yc \<and> int (length data) mod yc = 0 then Inr data else Inl ValueError)
      else if 0 \<le> yc \<and> 0 \<le> xc \<and> int (length data) = yc * xc then Inr data
      else Inl ValueError)"

text \<open>The time index of a month (line 289).\<close>

definition time_index :: "data_desc \<Rightarrow> int \<Rightarrow> int \<Rightarrow> error + int" where
  "time_index data_desc year month =
     and_then (getitem (start_date data_desc)) (\<lambda>sd.
       Inr (((year - dt_year sd) * 12) + month - 1))"

fun remove_files_loop :: "'w sys \<Rightarrow> string list \<Rightarrow> ('w \<times> nc_op list, unit) prog" where
  "remove_files_loop sys [] = io_return ()"
| "remove_files_loop sys (file # rest) =
     io_bind (world_op (os_remove sys file)) (\<lambda>_. remove_files_loop sys rest)"

text \<open>The body of the loop over the months (lines 278-297).\<close>

definition ingest_month ::
    "'w sys \<Rightarrow> string \<Rightarrow> data_desc \<Rightarrow> string \<Rightarrow> bool \<Rightarrow> bool \<Rightarrow> int \<Rightarrow> int \<Rightarrow>
     ('w \<times> nc_op list, unit) prog" where
  "ingest_month sys cmorph_dir data_desc obs_type download_files remove_files year month =
     io_bind (if download_files then download_daily_files sys cmorph_dir year month obs_type
              else io_return []) (\<lambda>downloaded_files.
     io_bind (world_read (\<lambda>w.
                read_daily_cmorph_to_monthly_sum sys w cmorph_dir data_desc year month)) (\<lambda>data.
     io_bind (io_lift (getitem (ydef_count data_desc))) (\<lambda>yc.
     io_bind (io_lift (getitem (xdef_count data_desc))) (\<lambda>xc.
     io_bind (io_lift (np_reshape data yc xc)) (\<lambda>data.
     io_bind (io_lift (time_index data_desc year month)) (\<lambda>time_index.
     io_bind (nc (AssignSlice time_index data)) (\<lambda>_.
       if download_files \<and> remove_files then remove_files_loop sys downloaded_files
       else io_return ())))))))"

fun ingest_months ::
    "'w sys \<Rightarrow> string \<Rightarrow> data_desc \<Rightarrow> string \<Rightarrow> bool \<Rightarrow> bool \<Rightarrow> int \<Rightarrow> int list \<Rightarrow>
     ('w \<times> nc_op list, unit) prog" where
  "ingest_months sys cmorph_dir data_desc obs_type download_files remove_files year [] =
     io_return ()"
| "ingest_months sys cmorph_dir data_desc obs_type download_files remove_files year
       (month # rest) =
     io_bind (ingest_month sys cmorph_dir data_desc obs_type download_files remove_files
                year month) (\<lambda>_.
       ingest_months sys cmorph_dir data_desc obs_type download_files remove_files year rest)"

fun ingest_years ::
    "'w sys \<Rightarrow> string \<Rightarrow> data_desc \<Rightarrow> string \<Rightarrow> bool \<Rightarrow> bool \<Rightarrow> int list \<Rightarrow>
     ('w \<times> nc_op list, unit) prog" where
  "ingest_years sys cmorph_dir data_desc obs_type download_files remove_files [] =
     io_return ()"
| "ingest_years sys cmorph_dir data_desc obs_type download_files remove_files (year # rest) =
     io_bind (ingest_months sys cmorph_dir data_desc obs_type download_files remove_files
                year [1 .. 12]) (\<lambda>_.
       ingest_years sys cmorph_dir data_desc obs_type download_files remove_files rest)"

text \<open>The body of the \<open>with\<close> block (lines 234-297).\<close>

definition fill_dataset ::
    "'w sys \<Rightarrow> string \<Rightarrow> data_desc \<Rightarrow> int list \<Rightarrow> string \<Rightarrow> bool \<Rightarrow> bool \<Rightarrow>
     ('w \<times> nc_op list, unit) prog" where
  "fill_dataset sys cmorph_dir data_desc years obs_type download_files remove_files =
     io_bind (nc (CreateDimension ''time'' None)) (\<lambda>_.
     io_bind (io_lift (getitem (xdef_count data_desc))) (\<lambda>xc.
     io_bind (nc (CreateDimension ''lon'' (Some xc))) (\<lambda>_.
     io_bind (io_lift (getitem (ydef_count data_desc))) (\<lambda>yc.
     io_bind (nc (CreateDimension ''lat'' (Some yc))) (\<lambda>_.
     io_bind (io_lift (getitem (title data_desc))) (\<lambda>t.
     io_bind (nc (SetTitle t)) (\<lambda>_.
     io_bind (nc (CreateVariable ''time'' ''i4'' [''time''] None)) (\<lambda>_.
     io_bind (nc (CreateVariable ''lon'' ''f4'' [''lon''] None)) (\<lambda>_.
     io_bind (nc (CreateVariable ''lat'' ''f4'' [''lat''] None)) (\<lambda>_.
     let units_since_year = 1800 in
     io_bind (nc (SetAttr ''time'' ''units''
                   (''days since '' @ py_str units_since_year @ ''-01-01 00:00:00''))) (\<lambda>_.
     io_bind (nc (SetAttr ''lon'' ''units'' ''degrees east'')) (\<lambda>_.
     io_bind (nc (SetAttr ''lat'' ''units'' ''degrees north'')) (\<lambda>_.
     io_bind (io_lift (getitem (start_date data_desc))) (\<lambda>sd.
     io_bind (io_lift (getitem (start_date data_desc))) (\<lambda>sd'.
     io_bind (io_lift (call_compute_days [dt_year sd, int (length years) * 366]
                [(''initial_month'', dt_month sd'),
                 (''units_start_year'', units_since_year)])) (\<lambda>days.
     io_bind (nc (AssignTime days)) (\<lambda>_.
     io_bind (io_lift (getitem (xdef_start data_desc))) (\<lambda>x0.
     io_bind (io_lift (getitem (xdef_start data_desc))) (\<lambda>x1.
     io_bind (io_lift (getitem (xdef_count data_desc))) (\<lambda>xn.
     io_bind (io_lift (getitem (xdef_increment data_desc))) (\<lambda>xi.
     io_bind (io_lift (getitem (xdef_increment data_desc))) (\<lambda>xi'.
     io_bind (io_frange x0 (x1 + of_int xn * xi) xi') (\<lambda>lon_values.
     io_bind (io_lift (getitem (ydef_start data_desc))) (\<lambda>y0.
     io_bind (io_lift (getitem (ydef_start data_desc))) (\<lambda>y1.
     io_bind (io_lift (getitem (ydef_count data_desc))) (\<lambda>yn.
     io_bind (io_lift (getitem (ydef_increment data_desc))) (\<lambda>yi.
     io_bind (io_lift (getitem (ydef_increment data_desc))) (\<lambda>yi'.
     io_bind (io_frange y0 (y1 + of_int yn * yi) yi') (\<lambda>lat_values.
     io_bind (nc (AssignLon lon_values)) (\<lambda>_.
     io_bind (nc (AssignLat lat_values)) (\<lambda>_.
     io_bind (io_lift (getitem (undef data_desc))) (\<lambda>u.
     io_bind (nc (CreateVariable ''prcp'' ''f8'' [''time'', ''lat'', ''lon''] (Some u))) (\<lambda>_.
     io_bind (nc (SetAttr ''prcp'' ''units'' ''mm'')) (\<lambda>_.
     io_bind (nc (SetAttr ''prcp'' ''standard_name'' ''precipitation'')) (\<lambda>_.
     io_bind (nc (SetAttr ''prcp'' ''long_name'' ''precipitation, monthly cumulative'')) (\<lambda>_.
     io_bind (io_lift (getitem (title data_desc))) (\<lambda>t'.
     io_bind (nc (SetAttr ''prcp'' ''description'' t')) (\<lambda>_.
       ingest_years sys cmorph_dir data_desc obs_type download_files remove_files years
     ))))))))))))))))))))))))))))))))))))))"

text \<open>
  \<open>ingest_cmorph_to_netcdf\<close>. Its first statement assigns to the parameter
  \<open>descriptor_file\<close>. The dataset is closed when the \<open>with\<close> block is left, also
  by an exception, which then leaves the function.
\<close>

definition ingest_cmorph_to_netcdf ::
    "'w sys \<Rightarrow> string \<Rightarrow> string \<Rightarrow> string \<Rightarrow> string \<Rightarrow> string \<Rightarrow> bool \<Rightarrow> bool \<Rightarrow>
     'w \<Rightarrow> ((error + unit) \<times> 'w) option" where
  "ingest_cmorph_to_netcdf sys cmorph_dir descriptor_file netcdf_file
       data_descriptor_file_name obs_type download_files remove_files w =
     (let descriptor_file = cmorph_dir @ os_sep sys @ ''data_descriptor.txt'' in
      case
        io_bind (if download_files then download_data_descriptor sys descriptor_file
                 else io_return ()) (\<lambda>_.
        io_bind (world_read (read_description sys descriptor_file)) (\<lambda>data_desc.
        io_bind (if download_files \<and> remove_files
                 then world_op (os_remove sys descriptor_file) else io_return ()) (\<lambda>_.
        let years = get_years in
        io_bind (world_op (nc_create sys netcdf_file)) (\<lambda>_.
          (\<lambda>s. case fill_dataset sys cmorph_dir data_desc years obs_type download_files
                      remove_files s of
                  None \<Rightarrow> None
                | Some (r, (w', ops)) \<Rightarrow> Some (r, (nc_close sys netcdf_file ops w', []))))))) (w, [])
      of
        None \<Rightarrow> None
      | Some (r, (w', ops)) \<Rightarrow> Some (r, w'))"

section \<open>Notions used in the statements\<close>

subsection \<open>Descriptor lines\<close>

text \<open>
  The leading token of a line is its first word, if it has one. A keyword is seen in a
  text when it is the leading token of one of the lines. \<open>recognized\<close> lists the
  leading tokens that \<open>_read_description\<close> tests for.
\<close>

definition leading_token :: "string \<Rightarrow> string option" where
  "leading_token line = (case str_split line of [] \<Rightarrow> None | w # _ \<Rightarrow> Some w)"

definition seen :: "string \<Rightarrow> string list \<Rightarrow> bool" where
  "seen keyword lines = (Some keyword \<in> set (map leading_token lines))"

text \<open>A line is accepted when the body of the loop raises nothing on it.\<close>

definition accepts :: "'w sys \<Rightarrow> string \<Rightarrow> bool" where
  "accepts sys line = returns (read_line sys line empty_dict)"

definition recognized :: "string list" where
  "recognized = [''UNDEF'', ''XDEF'', ''YDEF'', ''TDEF'', ''OPTIONS'', ''cmorph'', ''TITLE'']"

subsection \<open>File names and the files of a month\<close>

text \<open>
  A name parses when \<open>int\<close> accepts both of its slices; it matches a year and a
  month when the slices denote them. \<open>add_files\<close> reads every file of a list and
  adds it to the sum: the accumulation without any selection.
\<close>

definition name_parses :: "string \<Rightarrow> bool" where
  "name_parses f =
     (returns (py_int (slice_from_end 8 4 f)) \<and> returns (py_int (slice_from_end 4 2 f)))"

definition name_matches :: "int \<Rightarrow> int \<Rightarrow> string \<Rightarrow> bool" where
  "name_matches year month f =
     (py_int (slice_from_end 8 4 f) = Inr year \<and> py_int (slice_from_end 4 2 f) = Inr month)"

fun add_files ::
    "'w sys \<Rightarrow> 'w \<Rightarrow> string \<Rightarrow> data_desc \<Rightarrow> string list \<Rightarrow> real list \<Rightarrow> error + real list" where
  "add_files sys w cmorph_dir data_desc [] summed_data = Inr summed_data"
| "add_files sys w cmorph_dir data_desc (f # rest) summed_data =
     and_then (read_daily_grid sys w data_desc (cmorph_dir @ os_sep sys @ f)) (\<lambda>data.
     and_then (np_iadd summed_data data) (\<lambda>summed_data'.
       add_files sys w cmorph_dir data_desc rest summed_data'))"

text \<open>The elements of a file after the byte-order correction of line 50.\<close>

definition byte_order_corrected :: "'w sys \<Rightarrow> bool \<Rightarrow> real list \<Rightarrow> real list" where
  "byte_order_corrected sys le raw = (if le then raw else map (np_byteswap sys) raw)"

text \<open>
  The zeroing rule in the words of the specification, for comparison with
  \<open>zero_negative\<close>: an element strictly below the sentinel becomes zero.
\<close>

definition zero_below_undef :: "real \<Rightarrow> real list \<Rightarrow> real list" where
  "zero_below_undef u data = (if u < 0 then map (\<lambda>x. if x < u then 0 else x) data else data)"

subsection \<open>The slices written to the dataset\<close>

text \<open>
  \<open>slice_indices\<close> gives the time indices of the slice assignments among the
  operations on a dataset, in their order. A program \<open>writes\<close> a list of indices
  when every run of it appends a prefix of that list to them, and the whole list
  when it ends without an exception. \<open>month_indices\<close> is the list of
  \<open>(year - start_year) * 12 + (month - 1)\<close> over the years and their twelve months.
\<close>

fun slice_index :: "nc_op \<Rightarrow> int list" where
  "slice_index (AssignSlice i data) = [i]"
| "slice_index other = []"

definition slice_indices :: "nc_op list \<Rightarrow> int list" where
  "slice_indices ops = concat (map slice_index ops)"

definition writes :: "('w \<times> nc_op list, 'a) prog \<Rightarrow> int list \<Rightarrow> bool" where
  "writes m full \<longleftrightarrow>
     (\<forall>s r s'. m s = Some (r, s') \<longrightarrow>
        (\<exists>k \<le> length full.
           slice_indices (snd s') = slice_indices (snd s) @ take k full \<and>
           ((\<exists>x. r = Inr x) \<longrightarrow> k = length full)))"

definition month_indices :: "int \<Rightarrow> int list \<Rightarrow> int list" where
  "month_indices start_year years =
     concat (map (\<lambda>year. map (\<lambda>month. (year - start_year) * 12 + (month - 1)) [1 .. 12])
               years)"

section \<open>An example environment\<close>

text \<open>
  A small machine on which the functions can be run: a work directory whose listing is
  \<open>entries\<close>, binary files given by their elements, text files given by their lines,
  and the datasets written. It has no network. \<open>float\<close> and \<open>strptime\<close> are given
  on the strings that occur in the example descriptors. The example files are little
  endian and \<open>np_byteswap\<close> is not applied to them.
\<close>

record disk =
  entries :: "string list"
  grids :: "(string \<times> real list) list"
  texts :: "(string \<times> string list) list"
  datasets :: "(string \<times> nc_op list) list"

definition example_sys :: "disk sys" where
  "example_sys = \<lparr>
     py_float = (\<lambda>s. case map_of [(''-999.0'', - 999), (''0.125'', 1 / 8), (''0.25'', 1 / 4),
                                     (''-59.875'', - 479 / 8)] s of
                        None \<Rightarrow> Inl ValueError | Some v \<Rightarrow> Inr v),
     strptime = (\<lambda>s. if s = ''01jan1998''
                      then Inr \<lparr>dt_year = 1998, dt_month = 1, dt_day = 1\<rparr>
                      else if s = ''01jan1700''
                      then Inr \<lparr>dt_year = 1700, dt_month = 1, dt_day = 1\<rparr>
                      else Inl ValueError),
     open_lines = (\<lambda>path w. case map_of (texts w) path of
                        None \<Rightarrow> Inl OSError | Some ls \<Rightarrow> Inr ls),
     os_listdir = (\<lambda>dir w. Inr (entries w)),
     os_sep = ''/'',
     np_fromfile = (\<lambda>path w. case map_of (grids w) path of
                        None \<Rightarrow> Inl OSError | Some g \<Rightarrow> Inr g),
     np_byteswap = (\<lambda>x. x),
     os_remove = (\<lambda>path w.
        if path \<in> set (map fst (grids w)) \<or> path \<in> set (map fst (texts w))
        then (Inr (), w\<lparr>grids := filter (\<lambda>f. fst f \<noteq> path) (grids w),
                         texts := filter (\<lambda>f. fst f \<noteq> path) (texts w)\<rparr>)
        else (Inl OSError, w)),
     urlretrieve = (\<lambda>url path w. (Inl OSError, w)),
     bz2_extract = (\<lambda>src dst w. (Inl OSError, w)),
     gzip_extract = (\<lambda>src dst w. (Inl OSError, w)),
     nc_create = (\<lambda>path w. (Inr (), w)),
     nc_close = (\<lambda>path ops w. w\<lparr>datasets := (path, ops) # datasets w\<rparr>)\<rparr>"

text \<open>A descriptor of a 2 by 2 grid, as \<open>_read_description\<close> builds it.\<close>

definition grid_2x2 :: data_desc where
  "grid_2x2 = \<lparr>undef = Some (- 999), xdef_count = Some 2, xdef_start = Some (1 / 8),
     xdef_increment = Some (1 / 4), ydef_count = Some 2, ydef_start = Some (- 479 / 8),
     ydef_increment = Some (1 / 4),
     start_date = Some \<lparr>dt_year = 1998, dt_month = 1, dt_day = 1\<rparr>,
     little_endian = Some True, variable_description = None, title = Some ''CMORPH''\<rparr>"

definition day1 :: string where
  "day1 = ''CMORPH_V1.0_RAW_0.25deg-DLY_00Z_19980101''"

definition day2 :: string where
  "day2 = ''CMORPH_V1.0_RAW_0.25deg-DLY_00Z_19980102''"

definition feb1 :: string where
  "feb1 = ''CMORPH_V1.0_RAW_0.25deg-DLY_00Z_19980201''"

definition empty_disk :: disk where
  "empty_disk = \<lparr>entries = [], grids = [], texts = [], datasets = []\<rparr>"

text \<open>Two days of January 1998 and one of February.\<close>

definition january_disk :: disk where
  "january_disk = empty_disk\<lparr>entries := [day1, feb1, day2],
     grids := [(''work/'' @ day1, [1, 1, 1, 1]), (''work/'' @ day2, [- 999, 1, 1, 1]),
               (''work/'' @ feb1, [7, 7, 7, 7])]\<rparr>"

text \<open>One daily file with values around the sentinel.\<close>

definition sentinel_disk :: disk where
  "sentinel_disk = empty_disk\<lparr>entries := [day1],
     grids := [(''work/'' @ day1, [- 1, - 999, - 1000, 5])]\<rparr>"

text \<open>One daily file that holds a single element, and one that holds two.\<close>

definition one_element_disk :: disk where
  "one_element_disk = empty_disk\<lparr>entries := [day1], grids := [(''work/'' @ day1, [5])]\<rparr>"

definition two_element_disk :: disk where
  "two_element_disk = empty_disk\<lparr>entries := [day1], grids := [(''work/'' @ day1, [5, 6])]\<rparr>"

text \<open>
  The work directory as \<open>ingest_cmorph_to_netcdf\<close> leaves it for the monthly sums
  when nothing is downloaded: it holds the descriptor file that was read from it.
\<close>

definition descriptor_lines :: "string list" where
  "descriptor_lines =
     [''TITLE  CMORPH Version 1.0BETA Version, daily precip from 00Z-24Z \<newline>'',
      ''OPTIONS template little_endian\<newline>'',
      ''UNDEF  -999.0\<newline>'',
      ''XDEF 2 LINEAR    0.125  0.25\<newline>'',
      ''YDEF 2 LINEAR  -59.875  0.25\<newline>'',
      ''ZDEF   01 LEVELS 1\<newline>'',
      ''TDEF 99999 LINEAR  01jan1998 1dy \<newline>'',
      ''VARS 1\<newline>'',
      ''cmorph   1   99 yyyyy CMORPH Version 1.o daily precipitation (mm)  \<newline>'',
      ''ENDVARS\<newline>'']"

definition descriptor_disk :: disk where
  "descriptor_disk = empty_disk\<lparr>entries := [''data_descriptor.txt''],
     texts := [(''work/data_descriptor.txt'', descriptor_lines)]\<rparr>"

text \<open>The dictionary that \<open>_read_description\<close> builds from these lines.\<close>

definition parsed_descriptor :: data_desc where
  "parsed_descriptor = grid_2x2\<lparr>
     variable_description := Some ''CMORPH Version 1.o daily precipitation (mm)'',
     title := Some ''CMORPH Version 1.0BETA Version, daily precip from 00Z-24Z''\<rparr>"

text \<open>The same descriptor without its UNDEF line, and with a blank line after the
  first line.\<close>

definition no_undef_lines :: "string list" where
  "no_undef_lines = filter (\<lambda>l. leading_token l \<noteq> Some ''UNDEF'') descriptor_lines"

definition no_undef_disk :: disk where
  "no_undef_disk = empty_disk\<lparr>entries := [''data_descriptor.txt''],
     texts := [(''work/data_descriptor.txt'', no_undef_lines)]\<rparr>"

definition blank_line_disk :: disk where
  "blank_line_disk = empty_disk\<lparr>entries := [''data_descriptor.txt''],
     texts := [(''work/data_descriptor.txt'',
                hd descriptor_lines # ''\<newline>'' # tl descriptor_lines)]\<rparr>"

text \<open>
  The same descriptor with a start date in 1700, before the year 1800 that
  \<open>ingest_cmorph_to_netcdf\<close> takes as the epoch of the time axis.
\<close>

definition early_start_disk :: disk where
  "early_start_disk = empty_disk\<lparr>entries := [''data_descriptor.txt''],
     texts := [(''work/data_descriptor.txt'',
                map (\<lambda>l. if leading_token l = Some ''TDEF''
                         then ''TDEF 99999 LINEAR  01jan1700 1dy \<newline>'' else l)
                  descriptor_lines)]\<rparr>"

section \<open>Properties\<close>

subsection \<open>Sequencing\<close>

lemma and_then_Inl [simp]: "and_then (Inl e) f = Inl e"
  by (simp add: and_then_def)

lemma and_then_Inr [simp]: "and_then (Inr x) f = f x"
  by (simp add: and_then_def)

lemma and_then_eq_Inr: "and_then m f = Inr y \<longleftrightarrow> (\<exists>x. m = Inr x \<and> f x = Inr y)"
  by (cases m) simp_all

lemma returns_iff: "returns r \<longleftrightarrow> (\<exists>x. r = Inr x)"
  by (cases r) (simp_all add: returns_def)

lemma getitem_Some [simp]: "getitem (Some x) = Inr x"
  by (simp add: getitem_def)

lemma getitem_None [simp]: "getitem None = Inl KeyError"
  by (simp add: getitem_def)

subsection \<open>The time axis\<close>

lemma mk_datetime_jan1: "1 \<le> y \<Longrightarrow> y \<le> 9999 \<Longrightarrow>
    mk_datetime y 1 1 = Inr \<lparr>dt_year = y, dt_month = 1, dt_day = 1\<rparr>"
  by (simp add: mk_datetime_def days_in_month_def MONTH_DAYS_LEAP_def MONTH_DAYS_NONLEAP_def)

lemma mk_datetime_dec31: "1 \<le> y \<Longrightarrow> y \<le> 9999 \<Longrightarrow>
    mk_datetime y 12 31 = Inr \<lparr>dt_year = y, dt_month = 12, dt_day = 31\<rparr>"
  by (simp add: mk_datetime_def days_in_month_def MONTH_DAYS_LEAP_def MONTH_DAYS_NONLEAP_def)

text \<open>
  No call of \<open>_compute_days\<close> returns an array: whatever the three years are, the
  result is an exception.
\<close>

lemma compute_days_never_returns: "\<exists>e. compute_days yi yf ys = Inl e"
  by (simp add: compute_days_def datetime_sub_int_def and_then_def split: sum.split)

lemma compute_days_in_range:
  assumes "ys \<le> yi" "1 \<le> yi" "yi \<le> 9999" "1 \<le> yf" "yf \<le> 9999"
  shows "compute_days yi yf ys = Inl TypeError"
  using assms
  by (simp add: compute_days_def datetime_sub_int_def mk_datetime_jan1 mk_datetime_dec31)

text \<open>
  C1. The claim: for valid input (first data year, epoch year not after it, a positive
  count of daily steps) the function returns a strictly increasing sequence of integers
  whose first element is the number of days from the epoch's January 1st to the first
  data year's January 1st. The code does not: at the first data year 1998 and the epoch
  1800, with the final year 2017 and also with the step count 7320 that the pipeline
  passes in that position, the subtraction of an \<open>int\<close> from a datetime raises
  TypeError and nothing is returned.
\<close>

theorem compute_days_raises_type_error:
  "compute_days 1998 2017 1800 = Inl TypeError \<and> compute_days 1998 7320 1800 = Inl TypeError"
  by (simp add: compute_days_def datetime_sub_int_def mk_datetime_def
      days_in_month_def isleap_def MONTH_DAYS_LEAP_def MONTH_DAYS_NONLEAP_def)

text \<open>
  C8, as the code has it. A call of \<open>_compute_days\<close> whose arguments bind, by
  position or by the name \<open>year_since\<close>, with an epoch year strictly later than the
  first data year fails with ValueError, the range error. The check is the first
  statement of the function, and the function itself reads or writes no file and no
  dataset: run as a step of a program, it leaves the files and the dataset under
  construction as they are.
\<close>

theorem compute_days_rejects_late_epoch:
  assumes "year_initial < year_since"
  shows "compute_days year_initial year_final year_since = Inl ValueError \<and>
     call_compute_days [year_initial, year_final, year_since] [] = Inl ValueError \<and>
     call_compute_days [year_initial, year_final] [(''year_since'', year_since)] = Inl ValueError \<and>
     io_lift (compute_days year_initial year_final year_since) s = Some (Inl ValueError, s)"
  using assms
  by (simp add: compute_days_def call_compute_days_def bind_arguments_def io_lift_def)

theorem compute_days_rejects_late_epoch_witness:
  "(1998::int) < 2000 \<and> compute_days 1998 2017 2000 = Inl ValueError \<and>
   call_compute_days [1998, 2017, 2000] [] = Inl ValueError \<and>
   call_compute_days [1998, 2017] [(''year_since'', 2000)] = Inl ValueError \<and>
   io_lift (compute_days 1998 2017 2000) (empty_disk, [CreateDimension ''time'' None]) =
     Some (Inl ValueError, (empty_disk, [CreateDimension ''time'' None]))"
proof -
  have h: "(1998::int) < 2000" by simp
  from compute_days_rejects_late_epoch [OF h, of 2017
      "(empty_disk, [CreateDimension ''time'' None])"] h
  show ?thesis by blast
qed

text \<open>
  C8 as stated fails for the call that the program makes. With a descriptor whose data
  start in 1700, before the epoch 1800 of the time axis, \<open>ingest_cmorph_to_netcdf\<close>
  has read the descriptor and created the dataset with its dimensions, coordinate
  variables and units when it calls \<open>_compute_days\<close> at line 253. That call names
  keywords which the function does not have and raises TypeError, not the range error,
  and the dataset is closed with what was written before the call.
\<close>

theorem late_epoch_in_pipeline_counterexample:
  "(1700::int) < 1800 \<and>
   and_then (read_description example_sys ''work/data_descriptor.txt'' early_start_disk)
     (\<lambda>d. getitem (start_date d)) = Inr \<lparr>dt_year = 1700, dt_month = 1, dt_day = 1\<rparr> \<and>
   call_compute_days [1700, int (length get_years) * 366]
     [(''initial_month'', 1), (''units_start_year'', 1800)] = Inl TypeError \<and>
   ingest_cmorph_to_netcdf example_sys ''work'' ''other.ctl'' ''out.nc''
     ''CMORPH_V1.0_RAW_0.25deg-DLY_00Z.ctl'' ''raw'' False False early_start_disk =
   Some (Inl TypeError, early_start_disk\<lparr>datasets :=
     [(''out.nc'',
       [CreateDimension ''time'' None, CreateDimension ''lon'' (Some 2),
        CreateDimension ''lat'' (Some 2),
        SetTitle ''CMORPH Version 1.0BETA Version, daily precip from 00Z-24Z'',
        CreateVariable ''time'' ''i4'' [''time''] None,
        CreateVariable ''lon'' ''f4'' [''lon''] None,
        CreateVariable ''lat'' ''f4'' [''lat''] None,
        SetAttr ''time'' ''units'' ''days since 1800-01-01 00:00:00'',
        SetAttr ''lon'' ''units'' ''degrees east'',
        SetAttr ''lat'' ''units'' ''degrees north''])]\<rparr>)"
  by code_simp

subsection \<open>Evaluation of the examples\<close>

lemmas string_eval = str_split_def isspace_def int_space_def isdigit_def digit_value_def strip_def
  py_int_def int_unsigned_def slice_from_end_def item_def

lemmas example_eval = example_sys_def empty_disk_def grid_2x2_def day1_def day2_def feb1_def

lemma day1_matches: "name_matches 1998 1 day1"
  by (simp add: name_matches_def day1_def string_eval)

lemma day2_matches: "name_matches 1998 1 day2"
  by (simp add: name_matches_def day2_def string_eval)

lemma feb1_matches: "name_matches 1998 2 feb1"
  by (simp add: name_matches_def feb1_def string_eval)

lemma descriptor_name_unparsed: "py_int (slice_from_end 8 4 ''data_descriptor.txt'') = Inl ValueError"
  by (simp add: string_eval)

text \<open>
  \<open>int\<close> does not drop the separators U+001C to U+001F, although \<open>str.split\<close>
  does: a file name with such a character in its month slice does not parse.
\<close>

lemma py_int_rejects_separator: "py_int [CHR 0x1C, CHR ''5''] = Inl ValueError"
  by (simp add: py_int_def strip_def int_space_def int_unsigned_def isdigit_def)

lemma separator_name_unparsed: "\<not> name_parses (''CMORPH_1998'' @ [CHR 0x1C] @ ''101'')"
  by (simp add: name_parses_def returns_def slice_from_end_def py_int_def strip_def int_space_def
      int_unsigned_def isdigit_def digit_value_def)

subsection \<open>Reading one daily grid\<close>

lemma read_daily_grid_value:
  assumes "np_fromfile sys path w = Inr raw" "little_endian d = Some le" "undef d = Some u"
  shows "read_daily_grid sys w d path =
     Inr (map (\<lambda>x. if u < 0 \<and> x < 0 then 0 else x) (byte_order_corrected sys le raw))"
  using assms by (simp add: read_daily_grid_def zero_negative_def byte_order_corrected_def)

lemma read_daily_grid_length:
  "read_daily_grid sys w d path = Inr out \<Longrightarrow> np_fromfile sys path w = Inr raw \<Longrightarrow>
   length out = length raw"
  by (auto simp: read_daily_grid_def zero_negative_def and_then_eq_Inr Let_def split: if_splits)

text \<open>
  C2, as the code has it. The grid read from a file has the elements of the file after
  byte-order correction, where exactly the elements strictly less than zero are replaced
  with zero when the descriptor's \<open>undef\<close> is negative; when \<open>undef\<close> is not negative,
  no element is replaced.
\<close>

theorem read_daily_grid_zeroes_negative:
  assumes "np_fromfile sys path w = Inr raw" "little_endian d = Some le" "undef d = Some u"
  shows "\<exists>out. read_daily_grid sys w d path = Inr out \<and> length out = length raw \<and>
     (\<forall>i < length raw. out ! i =
        (if u < 0 \<and> byte_order_corrected sys le raw ! i < 0 then 0
         else byte_order_corrected sys le raw ! i))"
  using assms
  by (simp add: read_daily_grid_def zero_negative_def byte_order_corrected_def)

theorem read_daily_grid_zeroes_negative_witness:
  "np_fromfile example_sys (''work/'' @ day1) sentinel_disk = Inr [- 1, - 999, - 1000, 5] \<and>
   little_endian grid_2x2 = Some True \<and> undef grid_2x2 = Some (- 999) \<and>
   (\<exists>out. read_daily_grid example_sys sentinel_disk grid_2x2 (''work/'' @ day1) = Inr out \<and>
      length out = length [- 1, - 999, - 1000, 5 :: real] \<and>
      (\<forall>i < length [- 1, - 999, - 1000, 5 :: real]. out ! i =
         (if (- 999 :: real) < 0 \<and>
             byte_order_corrected example_sys True [- 1, - 999, - 1000, 5] ! i < 0 then 0
          else byte_order_corrected example_sys True [- 1, - 999, - 1000, 5] ! i)))"
proof -
  have f: "np_fromfile example_sys (''work/'' @ day1) sentinel_disk = Inr [- 1, - 999, - 1000, 5]"
    by (simp add: sentinel_disk_def example_eval)
  have le: "little_endian grid_2x2 = Some True" and u: "undef grid_2x2 = Some (- 999)"
    by (simp_all add: grid_2x2_def)
  from read_daily_grid_zeroes_negative [OF f le u] f le u show ?thesis by blast
qed

text \<open>
  C2 as stated fails. With \<open>undef = -999\<close> the elements -1 and -999 of a file are
  not strictly less than the sentinel, and the stated rule keeps them; the code replaces
  both with zero.
\<close>

theorem zeroing_below_sentinel_counterexample:
  "read_daily_grid example_sys sentinel_disk grid_2x2 (''work/'' @ day1) = Inr [0, 0, 0, 5] \<and>
   zero_below_undef (- 999) [- 1, - 999, - 1000, 5] = [- 1, - 999, 0, 5]"
  by (simp add: read_daily_grid_def zero_negative_def zero_below_undef_def sentinel_disk_def
      example_eval)

subsection \<open>Monthly sums\<close>

lemma np_iadd_length: "np_iadd acc data = Inr acc' \<Longrightarrow> length acc' = length acc"
  by (auto simp: np_iadd_def split: if_splits)

lemma sum_files_append:
  "sum_files sys w dir d y m (pre @ post) acc =
     and_then (sum_files sys w dir d y m pre acc) (\<lambda>a. sum_files sys w dir d y m post a)"
proof (induction pre arbitrary: acc)
  case Nil
  then show ?case by simp
next
  case (Cons f pre)
  show ?case
    by (simp add: Cons.IH and_then_def split: sum.splits)
qed

lemma sum_files_Cons_Inr:
  assumes "sum_files sys w dir d y m (g # files) acc = Inr r"
  shows "\<exists>a. length a = length acc \<and> sum_files sys w dir d y m files a = Inr r"
proof (cases "py_int (slice_from_end 8 4 g) = Inr y \<and> py_int (slice_from_end 4 2 g) = Inr m")
  case True
  with assms obtain data a where "np_iadd acc data = Inr a"
    "sum_files sys w dir d y m files a = Inr r"
    by (auto simp: and_then_eq_Inr)
  then show ?thesis
    using np_iadd_length by blast
next
  case False
  with assms have "sum_files sys w dir d y m files acc = Inr r"
    by (auto simp: and_then_eq_Inr split: if_splits)
  then show ?thesis by blast
qed

lemma sum_files_length:
  "sum_files sys w dir d y m files acc = Inr acc' \<Longrightarrow> length acc' = length acc"
proof (induction files arbitrary: acc)
  case Nil
  then show ?case by simp
next
  case (Cons f files)
  from sum_files_Cons_Inr [OF Cons.prems] obtain a where
    "length a = length acc" "sum_files sys w dir d y m files a = Inr acc'"
    by blast
  with Cons.IH [of a] show ?case by simp
qed

text \<open>When every name parses, the loop adds exactly the files whose names match.\<close>

lemma sum_files_selected:
  "\<forall>f \<in> set files. name_parses f \<Longrightarrow>
   sum_files sys w dir d y m files acc =
     add_files sys w dir d (filter (name_matches y m) files) acc"
proof (induction files arbitrary: acc)
  case Nil
  then show ?case by simp
next
  case (Cons f files)
  from Cons.prems obtain fy fm where
    p: "py_int (slice_from_end 8 4 f) = Inr fy" "py_int (slice_from_end 4 2 f) = Inr fm"
    by (auto simp: name_parses_def returns_iff)
  from Cons.prems have rest: "\<forall>f \<in> set files. name_parses f" by simp
  show ?case
    using p Cons.IH [OF rest]
    by (simp add: name_matches_def and_then_def split: sum.splits)
qed

text \<open>A name that does not parse makes the loop raise, whatever the target month.\<close>

lemma sum_files_unparsed:
  "f \<in> set files \<Longrightarrow> \<not> name_parses f \<Longrightarrow> \<exists>e. sum_files sys w dir d y m files acc = Inl e"
proof (induction files arbitrary: acc)
  case Nil
  then show ?case by simp
next
  case (Cons g files)
  show ?case
  proof (cases "g = f")
    case True
    with Cons.prems(2) show ?thesis
      by (cases "py_int (slice_from_end 8 4 f)"; cases "py_int (slice_from_end 4 2 f)")
         (auto simp: name_parses_def returns_iff)
  next
    case False
    with Cons.prems have "f \<in> set files" by simp
    from Cons.IH [OF this Cons.prems(2)] show ?thesis
      by (auto simp: and_then_def split: sum.splits)
  qed
qed

text \<open>
  The slices of a name that ends in decimal digits denote the numbers that the digits
  spell, so for such names a match is the equality of the characters with the
  four-digit year and the two-digit month.
\<close>

lemma digit_not_space: "isdigit c \<Longrightarrow> \<not> int_space c"
  by (auto simp: isdigit_def int_space_def Let_def)

lemma digit_not_sign: "isdigit c \<Longrightarrow> c \<noteq> CHR ''-'' \<and> c \<noteq> CHR ''+''"
  by (auto simp: isdigit_def)

lemma py_int_four_digits:
  assumes "isdigit a" "isdigit b" "isdigit c" "isdigit e"
  shows "py_int [a, b, c, e] =
     Inr (1000 * digit_value a + 100 * digit_value b + 10 * digit_value c + digit_value e)"
  using assms digit_not_space [of a] digit_not_space [of e] digit_not_sign [of a]
  by (simp add: py_int_def strip_def int_unsigned_def)

lemma py_int_two_digits:
  assumes "isdigit a" "isdigit b"
  shows "py_int [a, b] = Inr (10 * digit_value a + digit_value b)"
  using assms digit_not_space [of a] digit_not_space [of b] digit_not_sign [of a]
  by (simp add: py_int_def strip_def int_unsigned_def)

lemma digit_char: "isdigit c \<Longrightarrow> char_of (48 + nat (digit_value c)) = c"
proof -
  assume "isdigit c"
  then have "48 \<le> (of_char c :: nat)" by (simp add: isdigit_def Let_def)
  then have "48 + nat (digit_value c) = (of_char c :: nat)"
    by (simp add: digit_value_def)
  then show ?thesis by simp
qed

lemma digit_value_range: "isdigit c \<Longrightarrow> 0 \<le> digit_value c \<and> digit_value c \<le> 9"
  by (auto simp: isdigit_def digit_value_def Let_def)

lemma isdigit_char_of: "k < 10 \<Longrightarrow> isdigit (char_of (48 + k :: nat))"
  by (simp add: isdigit_def Let_def)

lemma digit_value_char_of: "k < 10 \<Longrightarrow> digit_value (char_of (48 + k :: nat)) = int k"
  by (simp add: digit_value_def)

lemma not_sign_char_of: "k < 10 \<Longrightarrow> char_of (48 + k :: nat) \<noteq> CHR ''-'' \<and> char_of (48 + k :: nat) \<noteq> CHR ''+''"
  using isdigit_char_of [of k] digit_not_sign by blast

lemma nat_str_digit: "k < 10 \<Longrightarrow> nat_str k = [char_of (48 + k)]"
  by (subst nat_str.simps) simp

lemma nat_str_more: "\<not> k < 10 \<Longrightarrow> nat_str k = nat_str (k div 10) @ [char_of (48 + k mod 10)]"
  by (subst nat_str.simps) simp

lemma zfill_digits:
  assumes "length s \<le> 4" "s \<noteq> []" "hd s \<noteq> CHR ''-''" "hd s \<noteq> CHR ''+''"
  shows "zfill 4 s = replicate (4 - length s) (CHR ''0'') @ s"
  using assms by (cases s) (simp_all add: zfill_def)

lemma char_of_48: "char_of (48 :: nat) = CHR ''0''"
  by code_simp

lemma replicate_small:
  "replicate 3 x = [x, x, x]" "replicate 2 x = [x, x]" "replicate 1 x = [x]"
  by (simp_all add: numeral_3_eq_3 numeral_2_eq_2)

lemma zfill_four:
  assumes "n < 10000"
  shows "zfill 4 (nat_str n) =
    [char_of (48 + n div 1000), char_of (48 + n div 100 mod 10),
     char_of (48 + n div 10 mod 10), char_of (48 + n mod 10)]"
proof -
  consider "n < 10" | "10 \<le> n" "n < 100" | "100 \<le> n" "n < 1000" | "1000 \<le> n"
    by linarith
  then show ?thesis
  proof cases
    case 1
    then have s: "nat_str n = [char_of (48 + n)]" by (rule nat_str_digit)
    from 1 have z: "n div 1000 = 0" "n div 100 = 0" "n div 10 = 0" "n mod 10 = n" by auto
    show ?thesis
      unfolding s z using not_sign_char_of [OF 1]
      by (simp add: zfill_digits replicate_small char_of_48)
  next
    case 2
    then have a: "n div 10 < 10" by auto
    from 2 have s: "nat_str n = [char_of (48 + n div 10), char_of (48 + n mod 10)]"
      by (simp add: nat_str_more nat_str_digit [OF a])
    from 2 have z: "n div 1000 = 0" "n div 100 = 0" "n div 10 mod 10 = n div 10" by auto
    show ?thesis
      unfolding s z using not_sign_char_of [OF a]
      by (simp add: zfill_digits replicate_small char_of_48)
  next
    case 3
    then have a: "n div 100 < 10" and b: "\<not> n div 10 < 10" by auto
    have c: "n div 10 div 10 = n div 100" by (simp add: div_mult2_eq [symmetric])
    from 3 have s: "nat_str n =
        [char_of (48 + n div 100), char_of (48 + n div 10 mod 10), char_of (48 + n mod 10)]"
      by (simp add: nat_str_more [of n] nat_str_more [OF b] c nat_str_digit [OF a])
    from 3 have z: "n div 1000 = 0" "n div 100 mod 10 = n div 100" by auto
    show ?thesis
      unfolding s z using not_sign_char_of [OF a]
      by (simp add: zfill_digits replicate_small char_of_48)
  next
    case 4
    with assms have a: "n div 1000 < 10" and b: "\<not> n div 10 < 10" and b': "\<not> n div 100 < 10"
      by auto
    have c: "n div 10 div 10 = n div 100" "n div 100 div 10 = n div 1000"
      by (simp_all add: div_mult2_eq [symmetric])
    from 4 have s: "nat_str n =
        [char_of (48 + n div 1000), char_of (48 + n div 100 mod 10),
         char_of (48 + n div 10 mod 10), char_of (48 + n mod 10)]"
      by (simp add: nat_str_more [of n] nat_str_more [OF b] nat_str_more [OF b'] c
          nat_str_digit [OF a])
    show ?thesis
      unfolding s using not_sign_char_of [OF a]
      by (simp add: zfill_digits replicate_small char_of_48)
  qed
qed


lemma last_digit: "r < 10 \<Longrightarrow> (10 * q + r) mod 10 = (r :: nat)"
  by simp

lemma digits_unique:
  fixes a b c e :: nat
  assumes "a < 10" "b < 10" "c < 10" "e < 10"
  shows "(1000 * a + 100 * b + 10 * c + e) div 1000 = a"
    and "(1000 * a + 100 * b + 10 * c + e) div 100 mod 10 = b"
    and "(1000 * a + 100 * b + 10 * c + e) div 10 mod 10 = c"
    and "(1000 * a + 100 * b + 10 * c + e) mod 10 = e"
proof -
  let ?n = "1000 * a + 100 * b + 10 * c + e"
  show "?n div 1000 = a"
    using assms by (intro div_nat_eqI) simp_all
  have "?n div 100 = 10 * a + b"
    using assms by (intro div_nat_eqI) simp_all
  with last_digit [OF assms(2), of a] show "?n div 100 mod 10 = b" by simp
  have "?n div 10 = 10 * (10 * a + b) + c"
    using assms by (intro div_nat_eqI) simp_all
  with last_digit [OF assms(3), of "10 * a + b"] show "?n div 10 mod 10 = c" by simp
  have e3: "?n = 10 * (100 * a + 10 * b + c) + e" by simp
  show "?n mod 10 = e"
    unfolding e3 by (rule last_digit [OF assms(4)])
qed

lemma decimal_decomposition:
  "1000 * (n div 1000) + 100 * (n div 100 mod 10) + 10 * (n div 10 mod 10) + n mod 10 = (n :: nat)"
proof -
  have "n = 10 * (n div 10) + n mod 10" by simp
  moreover have "n div 10 = 10 * (n div 10 div 10) + n div 10 mod 10" by simp
  moreover have "n div 10 div 10 = n div 100" by (simp add: div_mult2_eq [symmetric])
  moreover have "n div 100 = 10 * (n div 100 div 10) + n div 100 mod 10" by simp
  moreover have "n div 100 div 10 = n div 1000" by (simp add: div_mult2_eq [symmetric])
  ultimately show ?thesis by linarith
qed

lemma digit_char_inj:
  fixes x y :: nat
  assumes "char_of (48 + x) = (char_of (48 + y) :: char)" "x < 10" "y < 10"
  shows "x = y"
proof -
  from assms(1) have "digit_value (char_of (48 + x)) = digit_value (char_of (48 + y))"
    by (rule arg_cong)
  then show ?thesis
    unfolding digit_value_char_of [OF assms(2)] digit_value_char_of [OF assms(3)] by simp
qed

lemma four_digits_spell:
  assumes "isdigit a" "isdigit b" "isdigit c" "isdigit e"
  shows "py_int [a, b, c, e] = Inr year \<longleftrightarrow>
     0 \<le> year \<and> year \<le> 9999 \<and> [a, b, c, e] = zfill 4 (py_str year)"
proof -
  define da db dc de where "da = nat (digit_value a)" and "db = nat (digit_value b)"
    and "dc = nat (digit_value c)" and "de = nat (digit_value e)"
  have r: "da < 10" "db < 10" "dc < 10" "de < 10"
    using digit_value_range [OF assms(1)] digit_value_range [OF assms(2)]
      digit_value_range [OF assms(3)] digit_value_range [OF assms(4)]
    unfolding da_def db_def dc_def de_def by linarith+
  have ch: "char_of (48 + da) = a" "char_of (48 + db) = b" "char_of (48 + dc) = c"
    "char_of (48 + de) = e"
    using digit_char [OF assms(1)] digit_char [OF assms(2)] digit_char [OF assms(3)]
      digit_char [OF assms(4)]
    by (simp_all add: da_def db_def dc_def de_def)
  define m where "m = 1000 * da + 100 * db + 10 * dc + de"
  have m: "m < 10000" using r by (simp add: m_def)
  have dv: "digit_value a = int da" "digit_value b = int db" "digit_value c = int dc"
    "digit_value e = int de"
    using digit_value_range [OF assms(1)] digit_value_range [OF assms(2)]
      digit_value_range [OF assms(3)] digit_value_range [OF assms(4)]
    by (simp_all add: da_def db_def dc_def de_def)
  have v: "py_int [a, b, c, e] = Inr (int m)"
    unfolding py_int_four_digits [OF assms] dv m_def by simp
  have spell: "zfill 4 (nat_str m) = [a, b, c, e]"
    unfolding zfill_four [OF m]
    unfolding m_def digits_unique [OF r] ch ..
  show ?thesis
  proof
    assume "py_int [a, b, c, e] = Inr year"
    with v have y: "year = int m" by simp
    have "py_str year = nat_str m" unfolding y by (simp add: py_str_def)
    with spell m y show "0 \<le> year \<and> year \<le> 9999 \<and> [a, b, c, e] = zfill 4 (py_str year)"
      by simp
  next
    assume h: "0 \<le> year \<and> year \<le> 9999 \<and> [a, b, c, e] = zfill 4 (py_str year)"
    define n where "n = nat year"
    from h have yn: "year = int n" by (simp add: n_def)
    from h have n: "n < 10000" unfolding n_def by linarith
    have ps: "py_str year = nat_str n" unfolding yn by (simp add: py_str_def)
    from h have "[a, b, c, e] = zfill 4 (py_str year)" by blast
    then have "[a, b, c, e] = [char_of (48 + n div 1000), char_of (48 + n div 100 mod 10),
           char_of (48 + n div 10 mod 10), char_of (48 + n mod 10)]"
      unfolding ps zfill_four [OF n] .
    then have eq: "a = char_of (48 + n div 1000)" "b = char_of (48 + n div 100 mod 10)"
      "c = char_of (48 + n div 10 mod 10)" "e = char_of (48 + n mod 10)"
      by (simp_all only: list.inject simp_thms)
    from n have q: "n div 1000 < 10" by simp
    have q': "n div 100 mod 10 < 10" "n div 10 mod 10 < 10" "n mod 10 < 10" by simp_all
    have "da = n div 1000"
      by (rule digit_char_inj [OF _ r(1) q]) (simp only: ch eq(1) [symmetric])
    moreover have "db = n div 100 mod 10"
      by (rule digit_char_inj [OF _ r(2) q'(1)]) (simp only: ch eq(2) [symmetric])
    moreover have "dc = n div 10 mod 10"
      by (rule digit_char_inj [OF _ r(3) q'(2)]) (simp only: ch eq(3) [symmetric])
    moreover have "de = n mod 10"
      by (rule digit_char_inj [OF _ r(4) q'(3)]) (simp only: ch eq(4) [symmetric])
    ultimately have mn: "m = n"
      unfolding m_def by (simp only: decimal_decomposition)
    show "py_int [a, b, c, e] = Inr year"
      by (simp only: v yn mn)
  qed
qed


lemma zfill_two:
  assumes "n < 100"
  shows "zfill 2 (nat_str n) = [char_of (48 + n div 10), char_of (48 + n mod 10)]"
proof (cases "n < 10")
  case True
  then have s: "nat_str n = [char_of (48 + n)]" by (rule nat_str_digit)
  from True have z: "n div 10 = 0" "n mod 10 = n" by auto
  show ?thesis
    unfolding s z using not_sign_char_of [OF True]
    by (simp add: zfill_def char_of_48)
next
  case False
  with assms have a: "n div 10 < 10" by auto
  have s: "nat_str n = [char_of (48 + n div 10), char_of (48 + n mod 10)]"
    by (simp add: nat_str_more [OF False] nat_str_digit [OF a])
  show ?thesis
    unfolding s using not_sign_char_of [OF a]
    by (simp add: zfill_def)
qed

lemma two_digits_spell:
  assumes "isdigit a" "isdigit b"
  shows "py_int [a, b] = Inr month \<longleftrightarrow>
     0 \<le> month \<and> month \<le> 99 \<and> [a, b] = zfill 2 (py_str month)"
proof -
  define da db where "da = nat (digit_value a)" and "db = nat (digit_value b)"
  have r: "da < 10" "db < 10"
    using digit_value_range [OF assms(1)] digit_value_range [OF assms(2)]
    unfolding da_def db_def by linarith+
  have ch: "char_of (48 + da) = a" "char_of (48 + db) = b"
    using digit_char [OF assms(1)] digit_char [OF assms(2)]
    by (simp_all add: da_def db_def)
  define m where "m = 10 * da + db"
  have m: "m < 100" using r by (simp add: m_def)
  have dv: "digit_value a = int da" "digit_value b = int db"
    using digit_value_range [OF assms(1)] digit_value_range [OF assms(2)]
    by (simp_all add: da_def db_def)
  have v: "py_int [a, b] = Inr (int m)"
    unfolding py_int_two_digits [OF assms] dv m_def by simp
  have d1: "m div 10 = da" unfolding m_def using r by simp
  have d0: "m mod 10 = db" unfolding m_def by (rule last_digit [OF r(2)])
  have spell: "zfill 2 (nat_str m) = [a, b]"
    unfolding zfill_two [OF m] d1 d0 ch ..
  show ?thesis
  proof
    assume "py_int [a, b] = Inr month"
    with v have y: "month = int m" by simp
    have "py_str month = nat_str m" unfolding y by (simp add: py_str_def)
    with spell m y show "0 \<le> month \<and> month \<le> 99 \<and> [a, b] = zfill 2 (py_str month)"
      by simp
  next
    assume h: "0 \<le> month \<and> month \<le> 99 \<and> [a, b] = zfill 2 (py_str month)"
    define n where "n = nat month"
    from h have yn: "month = int n" by (simp add: n_def)
    from h have n: "n < 100" unfolding n_def by linarith
    have ps: "py_str month = nat_str n" unfolding yn by (simp add: py_str_def)
    from h have "[a, b] = zfill 2 (py_str month)" by blast
    then have "[a, b] = [char_of (48 + n div 10), char_of (48 + n mod 10)]"
      unfolding ps zfill_two [OF n] .
    then have eq: "a = char_of (48 + n div 10)" "b = char_of (48 + n mod 10)"
      by (simp_all only: list.inject simp_thms)
    from n have q: "n div 10 < 10" by simp
    have q': "n mod 10 < 10" by simp
    have "da = n div 10"
      by (rule digit_char_inj [OF _ r(1) q]) (simp only: ch eq(1) [symmetric])
    moreover have "db = n mod 10"
      by (rule digit_char_inj [OF _ r(2) q']) (simp only: ch eq(2) [symmetric])
    ultimately have mn: "m = n"
      unfolding m_def by (simp only: mult_div_mod_eq)
    show "py_int [a, b] = Inr month"
      by (simp only: v yn mn)
  qed
qed

text \<open>
  So for a name whose last eight characters are decimal digits, as the daily files have
  them, the name matches a year and a month exactly when its characters \<open>[-8:-4]\<close>
  are the year written with four digits and its characters \<open>[-4:-2]\<close> the month
  written with two.
\<close>

lemma name_matches_digit_names:
  assumes "slice_from_end 8 4 f = [a, b, c, e]" "slice_from_end 4 2 f = [g, h]"
      and "isdigit a" "isdigit b" "isdigit c" "isdigit e" "isdigit g" "isdigit h"
  shows "name_parses f"
    and "name_matches year month f \<longleftrightarrow>
      (0 \<le> year \<and> year \<le> 9999 \<and> slice_from_end 8 4 f = zfill 4 (py_str year)) \<and>
      (0 \<le> month \<and> month \<le> 99 \<and> slice_from_end 4 2 f = zfill 2 (py_str month))"
proof -
  show "name_parses f"
    unfolding name_parses_def assms(1,2) py_int_four_digits [OF assms(3-6)]
      py_int_two_digits [OF assms(7,8)]
    by (simp add: returns_def)
  show "name_matches year month f \<longleftrightarrow>
      (0 \<le> year \<and> year \<le> 9999 \<and> slice_from_end 8 4 f = zfill 4 (py_str year)) \<and>
      (0 \<le> month \<and> month \<le> 99 \<and> slice_from_end 4 2 f = zfill 2 (py_str month))"
    unfolding name_matches_def assms(1,2)
    by (simp only: four_digits_spell [OF assms(3-6)] two_digits_spell [OF assms(7,8)])
qed

text \<open>
  C7, as the code has it. In a directory where every name parses, the monthly sum is the
  accumulation over exactly the files whose name slices denote the target year and
  month, in the order of the listing; and when no file matches it is the all-zero array
  of length \<open>x_count * y_count\<close>, without an error.
\<close>

theorem monthly_sum_selects:
  assumes "xdef_count d = Some xc" "ydef_count d = Some yc" "0 \<le> xc * yc"
      and "os_listdir sys dir w = Inr files"
      and "\<forall>f \<in> set files. name_parses f"
  shows "read_daily_cmorph_to_monthly_sum sys w dir d year month =
           add_files sys w dir d (filter (name_matches year month) files)
             (replicate (nat (xc * yc)) 0)
       \<and> (filter (name_matches year month) files = [] \<longrightarrow>
           read_daily_cmorph_to_monthly_sum sys w dir d year month =
             Inr (replicate (nat (xc * yc)) 0))"
  using assms sum_files_selected [of files sys w dir d year month]
  by (simp add: read_daily_cmorph_to_monthly_sum_def np_zeros_def)

theorem monthly_sum_selects_witness:
  "xdef_count grid_2x2 = Some 2 \<and> ydef_count grid_2x2 = Some 2 \<and> (0::int) \<le> 2 * 2 \<and>
   os_listdir example_sys ''work'' january_disk = Inr [day1, feb1, day2] \<and>
   name_parses day1 \<and> name_parses feb1 \<and> name_parses day2 \<and>
   filter (name_matches 1998 2) [day1, feb1, day2] = [feb1] \<and>
   filter (name_matches 1998 3) [day1, feb1, day2] = [] \<and>
   read_daily_cmorph_to_monthly_sum example_sys january_disk ''work'' grid_2x2 1998 2 =
     add_files example_sys january_disk ''work'' grid_2x2 [feb1] (replicate (nat (2 * 2)) 0) \<and>
   read_daily_cmorph_to_monthly_sum example_sys january_disk ''work'' grid_2x2 1998 3 =
     Inr (replicate (nat (2 * 2)) 0)"
proof -
  have x: "xdef_count grid_2x2 = Some 2" and y: "ydef_count grid_2x2 = Some 2"
    by (simp_all add: grid_2x2_def)
  have n: "(0::int) \<le> 2 * 2" by simp
  have l: "os_listdir example_sys ''work'' january_disk = Inr [day1, feb1, day2]"
    by (simp add: january_disk_def example_sys_def empty_disk_def)
  have p: "\<forall>f \<in> set [day1, feb1, day2]. name_parses f"
    using day1_matches day2_matches feb1_matches
    by (auto simp: name_parses_def name_matches_def returns_iff)
  have feb: "filter (name_matches 1998 2) [day1, feb1, day2] = [feb1]"
    using day1_matches day2_matches feb1_matches by (simp add: name_matches_def)
  have mar: "filter (name_matches 1998 3) [day1, feb1, day2] = []"
    using day1_matches day2_matches feb1_matches by (simp add: name_matches_def)
  from monthly_sum_selects [OF x y n l p, of 1998 2] monthly_sum_selects [OF x y n l p, of 1998 3]
    x y n l p feb mar
  show ?thesis by simp
qed

text \<open>
  C7 as stated fails. The work directory that holds only \<open>data_descriptor.txt\<close>,
  the file that \<open>ingest_cmorph_to_netcdf\<close> reads the descriptor from, has no file of
  January 1998, and the monthly sum is not the zero array: \<open>int('ptor')\<close> raises
  ValueError.
\<close>

theorem unparsed_name_counterexample:
  "os_listdir example_sys ''work'' descriptor_disk = Inr [''data_descriptor.txt''] \<and>
   slice_from_end 8 4 ''data_descriptor.txt'' = ''ptor'' \<and>
   read_daily_cmorph_to_monthly_sum example_sys descriptor_disk ''work'' grid_2x2 1998 1 =
     Inl ValueError"
  by (simp add: read_daily_cmorph_to_monthly_sum_def np_zeros_def descriptor_disk_def
      example_eval string_eval)

text \<open>A file of the target month whose length is neither that of the sum nor one makes
  the loop raise.\<close>

lemma sum_files_short_file:
  assumes "f \<in> set files" "name_matches y m f"
      and "np_fromfile sys (dir @ os_sep sys @ f) w = Inr data"
      and "length data \<noteq> length acc" "length data \<noteq> 1"
  shows "\<exists>e. sum_files sys w dir d y m files acc = Inl e"
  using assms
proof (induction files arbitrary: acc)
  case Nil
  then show ?case by simp
next
  case (Cons g files)
  show ?case
  proof (cases "g = f")
    case True
    have "\<exists>e. and_then (read_daily_grid sys w d (dir @ os_sep sys @ f)) (\<lambda>data.
             and_then (np_iadd acc data) k) = Inl e" for k :: "real list \<Rightarrow> error + real list"
    proof (cases "read_daily_grid sys w d (dir @ os_sep sys @ f)")
      case (Inl e)
      then show ?thesis by simp
    next
      case (Inr out)
      from Inr Cons.prems(3) have "length out = length data"
        by (rule read_daily_grid_length)
      with Cons.prems have "np_iadd acc out = Inl ValueError"
        by (simp add: np_iadd_def)
      with Inr show ?thesis by simp
    qed
    with True Cons.prems(2) show ?thesis
      by (simp add: name_matches_def)
  next
    case False
    with Cons.prems have in_rest: "f \<in> set files" by simp
    have step: "\<exists>e. sum_files sys w dir d y m files a = Inl e"
      if "length a = length acc" for a
      using Cons.IH [OF in_rest Cons.prems(2,3) _ Cons.prems(5), of a] Cons.prems(4) that
      by simp
    show ?thesis
    proof (cases "sum_files sys w dir d y m (g # files) acc")
      case (Inl e)
      then show ?thesis by simp
    next
      case (Inr r)
      from sum_files_Cons_Inr [OF this] step show ?thesis by force
    qed
  qed
qed

lemma sum_files_short_file_first_error:
  assumes "sum_files sys w dir d y m pre acc0 = Inr acc" "name_matches y m f"
      and "np_fromfile sys (dir @ os_sep sys @ f) w = Inr data"
      and "little_endian d = Some le" "undef d = Some u"
      and "length data \<noteq> length acc0" "length data \<noteq> 1"
  shows "sum_files sys w dir d y m (pre @ f # post) acc0 = Inl ValueError"
proof -
  from assms(1) have len: "length acc = length acc0" by (rule sum_files_length)
  from read_daily_grid_value [OF assms(3,4,5)] obtain out where
    out: "read_daily_grid sys w d (dir @ os_sep sys @ f) = Inr out" by blast
  from read_daily_grid_length [OF out assms(3)] have "length out = length data" .
  with len assms(6,7) have "np_iadd acc out = Inl ValueError"
    by (simp add: np_iadd_def)
  with assms(1,2) out show ?thesis
    by (simp add: sum_files_append name_matches_def)
qed

text \<open>
  A file of one element is added to every cell of the sum, and the loop goes on.
\<close>

lemma np_iadd_one: "np_iadd acc [v] = Inr (map (\<lambda>s. s + v) acc)"
proof (cases "length acc = 1")
  case True
  then obtain a where "acc = [a]" by (cases acc) auto
  then show ?thesis by (simp add: np_iadd_def)
next
  case False
  then show ?thesis by (auto simp: np_iadd_def)
qed

lemma sum_files_one_element_file:
  assumes "sum_files sys w dir d y m pre acc0 = Inr acc" "name_matches y m f"
      and "read_daily_grid sys w d (dir @ os_sep sys @ f) = Inr [v]"
  shows "sum_files sys w dir d y m (pre @ f # post) acc0 =
     sum_files sys w dir d y m post (map (\<lambda>s. s + v) acc)"
  using assms by (simp add: sum_files_append name_matches_def np_iadd_one)

lemma singleton_length: "length xs = 1 \<Longrightarrow> \<exists>v. xs = [v]"
  by (cases xs) auto

text \<open>
  C4, as the code has it. A file of the target month that holds fewer than
  \<open>x_count * y_count\<close> elements is read without an error, as the shorter array (when
  the descriptor has byte order and sentinel). If it does not hold exactly one element,
  the monthly sum fails, and where the files listed before it raised nothing, it fails
  with the ValueError of the addition to the sum. If it holds exactly one element, the
  addition raises nothing: where the files listed before it raised nothing, the element
  as read is added to every cell of the sum and the loop goes on with the files listed
  after it.
\<close>

theorem short_file_fails_in_addition:
  assumes "xdef_count d = Some xc" "ydef_count d = Some yc"
      and "os_listdir sys dir w = Inr files"
      and "f \<in> set files" "name_matches year month f"
      and "np_fromfile sys (dir @ os_sep sys @ f) w = Inr data"
      and "int (length data) < xc * yc"
  shows "(length data \<noteq> 1 \<longrightarrow>
        (\<exists>e. read_daily_cmorph_to_monthly_sum sys w dir d year month = Inl e)) \<and>
     (\<forall>le u. little_endian d = Some le \<and> undef d = Some u \<longrightarrow>
        (\<exists>out. read_daily_grid sys w d (dir @ os_sep sys @ f) = Inr out \<and>
           length out = length data) \<and>
        (\<forall>pre post acc. files = pre @ f # post \<and>
           sum_files sys w dir d year month pre (replicate (nat (xc * yc)) 0) = Inr acc \<longrightarrow>
           (length data \<noteq> 1 \<longrightarrow>
              read_daily_cmorph_to_monthly_sum sys w dir d year month = Inl ValueError) \<and>
           (length data = 1 \<longrightarrow>
              (\<exists>v. read_daily_grid sys w d (dir @ os_sep sys @ f) = Inr [v] \<and>
                 read_daily_cmorph_to_monthly_sum sys w dir d year month =
                 sum_files sys w dir d year month post (map (\<lambda>s. s + v) acc)))))"
proof -
  from assms(7) have pos: "0 \<le> xc * yc"
    and ne: "length data \<noteq> length (replicate (nat (xc * yc)) (0::real))"
    by auto
  have run: "read_daily_cmorph_to_monthly_sum sys w dir d year month =
      sum_files sys w dir d year month files (replicate (nat (xc * yc)) 0)"
    using assms(1,2,3) pos by (simp add: read_daily_cmorph_to_monthly_sum_def np_zeros_def)
  have first: "\<exists>e. read_daily_cmorph_to_monthly_sum sys w dir d year month = Inl e"
    if "length data \<noteq> 1"
    unfolding run by (rule sum_files_short_file [OF assms(4,5,6) ne that])
  have grid: "\<exists>out. read_daily_grid sys w d (dir @ os_sep sys @ f) = Inr out \<and>
        length out = length data"
    if k: "little_endian d = Some le" "undef d = Some u" for le u
    using read_daily_grid_value [OF assms(6) k] by (simp add: byte_order_corrected_def)
  have long: "read_daily_cmorph_to_monthly_sum sys w dir d year month = Inl ValueError"
    if k: "little_endian d = Some le" "undef d = Some u"
      and p: "files = pre @ f # post"
        "sum_files sys w dir d year month pre (replicate (nat (xc * yc)) 0) = Inr acc"
      and l: "length data \<noteq> 1"
    for le u pre post acc
    unfolding run p(1)
    by (rule sum_files_short_file_first_error [OF p(2) assms(5,6) k ne l])
  have one: "\<exists>v. read_daily_grid sys w d (dir @ os_sep sys @ f) = Inr [v] \<and>
        read_daily_cmorph_to_monthly_sum sys w dir d year month =
        sum_files sys w dir d year month post (map (\<lambda>s. s + v) acc)"
    if k: "little_endian d = Some le" "undef d = Some u"
      and p: "files = pre @ f # post"
        "sum_files sys w dir d year month pre (replicate (nat (xc * yc)) 0) = Inr acc"
      and l: "length data = 1"
    for le u pre post acc
  proof -
    from grid [OF k] obtain out where
      out: "read_daily_grid sys w d (dir @ os_sep sys @ f) = Inr out"
      and len: "length out = length data" by blast
    from len l have "length out = 1" by simp
    then obtain v where v: "out = [v]" using singleton_length by blast
    from out v have g: "read_daily_grid sys w d (dir @ os_sep sys @ f) = Inr [v]" by simp
    have "read_daily_cmorph_to_monthly_sum sys w dir d year month =
        sum_files sys w dir d year month post (map (\<lambda>s. s + v) acc)"
      unfolding run p(1) by (rule sum_files_one_element_file [OF p(2) assms(5) g])
    with g show ?thesis by blast
  qed
  show ?thesis
  proof (intro conjI allI impI)
    assume "length data \<noteq> 1"
    then show "\<exists>e. read_daily_cmorph_to_monthly_sum sys w dir d year month = Inl e"
      by (rule first)
  next
    fix le u
    assume "little_endian d = Some le \<and> undef d = Some u"
    then show "\<exists>out. read_daily_grid sys w d (dir @ os_sep sys @ f) = Inr out \<and>
        length out = length data"
      using grid by blast
  next
    fix le u pre post acc
    assume "little_endian d = Some le \<and> undef d = Some u"
      and "files = pre @ f # post \<and>
        sum_files sys w dir d year month pre (replicate (nat (xc * yc)) 0) = Inr acc"
      and "length data \<noteq> 1"
    then show "read_daily_cmorph_to_monthly_sum sys w dir d year month = Inl ValueError"
      using long by blast
  next
    fix le u pre post acc
    assume "little_endian d = Some le \<and> undef d = Some u"
      and "files = pre @ f # post \<and>
        sum_files sys w dir d year month pre (replicate (nat (xc * yc)) 0) = Inr acc"
      and "length data = 1"
    then show "\<exists>v. read_daily_grid sys w d (dir @ os_sep sys @ f) = Inr [v] \<and>
        read_daily_cmorph_to_monthly_sum sys w dir d year month =
        sum_files sys w dir d year month post (map (\<lambda>s. s + v) acc)"
      using one by blast
  qed
qed

theorem short_file_fails_in_addition_witness:
  "xdef_count grid_2x2 = Some 2 \<and> ydef_count grid_2x2 = Some 2 \<and>
   little_endian grid_2x2 = Some True \<and> undef grid_2x2 = Some (- 999) \<and>
   name_matches 1998 1 day1 \<and> day1 \<in> set [day1] \<and> [day1] = [] @ day1 # [] \<and>
   os_listdir example_sys ''work'' two_element_disk = Inr [day1] \<and>
   np_fromfile example_sys (''work'' @ os_sep example_sys @ day1) two_element_disk = Inr [5, 6] \<and>
   int (length [5, 6 :: real]) < 2 * 2 \<and> length [5, 6 :: real] \<noteq> 1 \<and>
   sum_files example_sys two_element_disk ''work'' grid_2x2 1998 1 [] (replicate (nat (2 * 2)) 0)
     = Inr (replicate (nat (2 * 2)) 0) \<and>
   (\<exists>out. read_daily_grid example_sys two_element_disk grid_2x2
             (''work'' @ os_sep example_sys @ day1) = Inr out \<and> length out = length [5, 6 :: real]) \<and>
   read_daily_cmorph_to_monthly_sum example_sys two_element_disk ''work'' grid_2x2 1998 1 =
     Inl ValueError \<and>
   os_listdir example_sys ''work'' one_element_disk = Inr [day1] \<and>
   np_fromfile example_sys (''work'' @ os_sep example_sys @ day1) one_element_disk = Inr [5] \<and>
   int (length [5 :: real]) < 2 * 2 \<and> length [5 :: real] = 1 \<and>
   sum_files example_sys one_element_disk ''work'' grid_2x2 1998 1 [] (replicate (nat (2 * 2)) 0)
     = Inr (replicate (nat (2 * 2)) 0) \<and>
   (\<exists>v. read_daily_grid example_sys one_element_disk grid_2x2
           (''work'' @ os_sep example_sys @ day1) = Inr [v] \<and>
      read_daily_cmorph_to_monthly_sum example_sys one_element_disk ''work'' grid_2x2 1998 1 =
      sum_files example_sys one_element_disk ''work'' grid_2x2 1998 1 []
        (map (\<lambda>s. s + v) (replicate (nat (2 * 2)) 0)))"
proof -
  have x: "xdef_count grid_2x2 = Some 2" and y: "ydef_count grid_2x2 = Some 2"
    and le: "little_endian grid_2x2 = Some True" and u: "undef grid_2x2 = Some (- 999)"
    by (simp_all add: grid_2x2_def)
  have i: "day1 \<in> set [day1]" and a: "[day1] = [] @ day1 # []" by simp_all
  have l2: "os_listdir example_sys ''work'' two_element_disk = Inr [day1]"
    by (simp add: two_element_disk_def example_sys_def empty_disk_def)
  have f2: "np_fromfile example_sys (''work'' @ os_sep example_sys @ day1) two_element_disk
      = Inr [5, 6]"
    by (simp add: two_element_disk_def example_sys_def empty_disk_def)
  have n2: "int (length [5, 6 :: real]) < 2 * 2" and o2: "length [5, 6 :: real] \<noteq> 1"
    by simp_all
  have s2: "sum_files example_sys two_element_disk ''work'' grid_2x2 1998 1 []
      (replicate (nat (2 * 2)) 0) = Inr (replicate (nat (2 * 2)) 0)"
    by simp
  have l1: "os_listdir example_sys ''work'' one_element_disk = Inr [day1]"
    by (simp add: one_element_disk_def example_sys_def empty_disk_def)
  have f1: "np_fromfile example_sys (''work'' @ os_sep example_sys @ day1) one_element_disk
      = Inr [5]"
    by (simp add: one_element_disk_def example_sys_def empty_disk_def)
  have n1: "int (length [5 :: real]) < 2 * 2" and o1: "length [5 :: real] = 1"
    by simp_all
  have s1: "sum_files example_sys one_element_disk ''work'' grid_2x2 1998 1 []
      (replicate (nat (2 * 2)) 0) = Inr (replicate (nat (2 * 2)) 0)"
    by simp
  from short_file_fails_in_addition [OF x y l2 i day1_matches f2 n2] le u a s2 o2
  have two: "(\<exists>out. read_daily_grid example_sys two_element_disk grid_2x2
             (''work'' @ os_sep example_sys @ day1) = Inr out \<and> length out = length [5, 6 :: real]) \<and>
    read_daily_cmorph_to_monthly_sum example_sys two_element_disk ''work'' grid_2x2 1998 1 =
     Inl ValueError"
    by blast
  from short_file_fails_in_addition [OF x y l1 i day1_matches f1 n1] le u a s1 o1
  have one: "\<exists>v. read_daily_grid example_sys one_element_disk grid_2x2
           (''work'' @ os_sep example_sys @ day1) = Inr [v] \<and>
      read_daily_cmorph_to_monthly_sum example_sys one_element_disk ''work'' grid_2x2 1998 1 =
      sum_files example_sys one_element_disk ''work'' grid_2x2 1998 1 []
        (map (\<lambda>s. s + v) (replicate (nat (2 * 2)) 0))"
    by blast
  from x y le u day1_matches i a l2 f2 n2 o2 s2 two l1 f1 n1 o1 s1 one
  show ?thesis by blast
qed

text \<open>
  C4 as stated fails. A file of January 1998 that holds one element, where the 2 by 2
  grid has four, is read as an array of length one, and the monthly sum raises nothing:
  the element is added to all four cells.
\<close>

theorem one_element_file_counterexample:
  "np_fromfile example_sys (''work/'' @ day1) one_element_disk = Inr [5] \<and>
   read_daily_grid example_sys one_element_disk grid_2x2 (''work/'' @ day1) = Inr [5] \<and>
   read_daily_cmorph_to_monthly_sum example_sys one_element_disk ''work'' grid_2x2 1998 1 =
     Inr [5, 5, 5, 5]"
  by (simp add: read_daily_cmorph_to_monthly_sum_def np_zeros_def read_daily_grid_def
      zero_negative_def np_iadd_def one_element_disk_def example_eval string_eval
      numeral_eq_Suc)

text \<open>
  C9. With a descriptor of a 2 by 2 grid and \<open>undef = -999\<close>, and a directory whose
  two files are of January 1998 and hold, after byte-order correction, the grids
  \<open>[1, 1, 1, 1]\<close> and \<open>[-999, 1, 1, 1]\<close>, the monthly sum of January 1998 is
  \<open>[1, 2, 2, 2]\<close>, in either order of the listing.
\<close>

theorem january_1998_scenario:
  assumes "xdef_count d = Some 2" "ydef_count d = Some 2" "undef d = Some (- 999)"
      and "little_endian d = Some le"
      and "os_listdir sys dir w = Inr files" "files = [f1, f2] \<or> files = [f2, f1]"
      and "name_matches 1998 1 f1" "name_matches 1998 1 f2"
      and "np_fromfile sys (dir @ os_sep sys @ f1) w = Inr raw1"
      and "byte_order_corrected sys le raw1 = [1, 1, 1, 1]"
      and "np_fromfile sys (dir @ os_sep sys @ f2) w = Inr raw2"
      and "byte_order_corrected sys le raw2 = [- 999, 1, 1, 1]"
  shows "read_daily_cmorph_to_monthly_sum sys w dir d 1998 1 = Inr [1, 2, 2, 2]"
proof -
  have g1: "read_daily_grid sys w d (dir @ os_sep sys @ f1) = Inr [1, 1, 1, 1]"
    using read_daily_grid_value [OF assms(9,4,3)] assms(10) by simp
  have g2: "read_daily_grid sys w d (dir @ os_sep sys @ f2) = Inr [0, 1, 1, 1]"
    using read_daily_grid_value [OF assms(11,4,3)] assms(12) by simp
  have z: "replicate (nat (2 * 2)) (0::real) = [0, 0, 0, 0]"
    by (simp add: numeral_eq_Suc)
  from assms(6) show ?thesis
  proof
    assume "files = [f1, f2]"
    with assms(1,2,5,7,8) g1 g2 z show ?thesis
      by (simp add: read_daily_cmorph_to_monthly_sum_def np_zeros_def name_matches_def
          np_iadd_def)
  next
    assume "files = [f2, f1]"
    with assms(1,2,5,7,8) g1 g2 z show ?thesis
      by (simp add: read_daily_cmorph_to_monthly_sum_def np_zeros_def name_matches_def
          np_iadd_def)
  qed
qed

theorem january_1998_scenario_witness:
  "xdef_count grid_2x2 = Some 2 \<and> ydef_count grid_2x2 = Some 2 \<and>
   undef grid_2x2 = Some (- 999) \<and> little_endian grid_2x2 = Some True \<and>
   os_listdir example_sys ''work'' (january_disk\<lparr>entries := [day1, day2]\<rparr>) = Inr [day1, day2] \<and>
   name_matches 1998 1 day1 \<and> name_matches 1998 1 day2 \<and>
   np_fromfile example_sys (''work'' @ os_sep example_sys @ day1)
     (january_disk\<lparr>entries := [day1, day2]\<rparr>) = Inr [1, 1, 1, 1] \<and>
   byte_order_corrected example_sys True [1, 1, 1, 1] = [1, 1, 1, 1] \<and>
   np_fromfile example_sys (''work'' @ os_sep example_sys @ day2)
     (january_disk\<lparr>entries := [day1, day2]\<rparr>) = Inr [- 999, 1, 1, 1] \<and>
   byte_order_corrected example_sys True [- 999, 1, 1, 1] = [- 999, 1, 1, 1] \<and>
   read_daily_cmorph_to_monthly_sum example_sys (january_disk\<lparr>entries := [day1, day2]\<rparr>)
     ''work'' grid_2x2 1998 1 = Inr [1, 2, 2, 2]"
proof -
  have x: "xdef_count grid_2x2 = Some 2" and y: "ydef_count grid_2x2 = Some 2"
    and le: "little_endian grid_2x2 = Some True" and u: "undef grid_2x2 = Some (- 999)"
    by (simp_all add: grid_2x2_def)
  have l: "os_listdir example_sys ''work'' (january_disk\<lparr>entries := [day1, day2]\<rparr>)
      = Inr [day1, day2]"
    by (simp add: january_disk_def example_sys_def empty_disk_def)
  have o: "[day1, day2] = [day1, day2] \<or> [day1, day2] = [day2, day1]" by simp
  have f1: "np_fromfile example_sys (''work'' @ os_sep example_sys @ day1)
      (january_disk\<lparr>entries := [day1, day2]\<rparr>) = Inr [1, 1, 1, 1]"
    by (simp add: january_disk_def example_eval)
  have f2: "np_fromfile example_sys (''work'' @ os_sep example_sys @ day2)
      (january_disk\<lparr>entries := [day1, day2]\<rparr>) = Inr [- 999, 1, 1, 1]"
    by (simp add: january_disk_def example_eval)
  have c1: "byte_order_corrected example_sys True [1, 1, 1, 1] = [1, 1, 1, 1]"
    and c2: "byte_order_corrected example_sys True [- 999, 1, 1, 1] = [- 999, 1, 1, 1]"
    by (simp_all add: byte_order_corrected_def)
  from january_1998_scenario [OF x y u le l o day1_matches day2_matches f1 c1 f2 c2]
    x y u le l day1_matches day2_matches f1 c1 f2 c2
  show ?thesis by simp
qed

subsection \<open>The descriptor\<close>

lemma item_0: "item ws 0 = (case ws of [] \<Rightarrow> Inl IndexError | w # _ \<Rightarrow> Inr w)"
  by (cases ws) (simp_all add: item_def)

text \<open>A line without a word raises IndexError at \<open>words[0]\<close>.\<close>

lemma read_line_blank:
  "leading_token line = None \<Longrightarrow> read_line sys line d = Inl IndexError"
  by (simp add: read_line_def leading_token_def item_0 split: list.splits)

text \<open>A line whose leading token is none of those tested for leaves the dictionary as
  it is.\<close>

lemma read_line_unrecognized:
  "leading_token line = Some t \<Longrightarrow> t \<notin> set recognized \<Longrightarrow> read_line sys line d = Inr d"
  by (auto simp: read_line_def leading_token_def item_0 recognized_def split: list.splits)

lemma read_line_UNDEF:
  "leading_token line = Some ''UNDEF'' \<Longrightarrow> read_line sys line d = Inr d' \<Longrightarrow>
   \<exists>v. d' = d\<lparr>undef := Some v\<rparr>"
  by (auto simp: read_line_def leading_token_def item_0 and_then_eq_Inr Let_def
      split: list.splits)

lemma read_line_XDEF:
  "leading_token line = Some ''XDEF'' \<Longrightarrow> read_line sys line d = Inr d' \<Longrightarrow>
   \<exists>n s i. d' = d\<lparr>xdef_count := Some n, xdef_start := Some s, xdef_increment := Some i\<rparr>"
  by (auto simp: read_line_def leading_token_def item_0 and_then_eq_Inr Let_def
      split: list.splits)

lemma read_line_YDEF:
  "leading_token line = Some ''YDEF'' \<Longrightarrow> read_line sys line d = Inr d' \<Longrightarrow>
   \<exists>n s i. d' = d\<lparr>ydef_count := Some n, ydef_start := Some s, ydef_increment := Some i\<rparr>"
  by (auto simp: read_line_def leading_token_def item_0 and_then_eq_Inr Let_def
      split: list.splits)

lemma read_line_TDEF:
  "leading_token line = Some ''TDEF'' \<Longrightarrow> read_line sys line d = Inr d' \<Longrightarrow>
   \<exists>v. d' = d\<lparr>start_date := Some v\<rparr>"
  by (auto simp: read_line_def leading_token_def item_0 and_then_eq_Inr Let_def
      split: list.splits)

lemma read_line_other:
  "leading_token line = Some t \<Longrightarrow> t \<notin> {''UNDEF'', ''XDEF'', ''YDEF'', ''TDEF''} \<Longrightarrow>
   read_line sys line d = Inr d' \<Longrightarrow>
   undef d' = undef d \<and> xdef_count d' = xdef_count d \<and> ydef_count d' = ydef_count d \<and>
   start_date d' = start_date d \<and> xdef_start d' = xdef_start d \<and> ydef_start d' = ydef_start d
   \<and> xdef_increment d' = xdef_increment d \<and> ydef_increment d' = ydef_increment d"
  by (auto simp: read_line_def leading_token_def item_0 and_then_eq_Inr Let_def
      split: list.splits if_splits)

text \<open>Whether a line is accepted does not depend on the dictionary built so far.\<close>

lemma read_line_independent:
  "read_line sys line d = Inr d' \<Longrightarrow> \<exists>e'. read_line sys line e = Inr e'"
  unfolding read_line_def Let_def
  by (cases "item (str_split line) 0")
     (auto simp: and_then_eq_Inr split: if_splits)

lemma read_line_step:
  assumes d1: "read_line sys l d = Inr d1" and t: "leading_token l = Some t"
  shows "(undef d1 = None \<longleftrightarrow> undef d = None \<and> t \<noteq> ''UNDEF'') \<and>
     (xdef_count d1 = None \<longleftrightarrow> xdef_count d = None \<and> t \<noteq> ''XDEF'') \<and>
     (ydef_count d1 = None \<longleftrightarrow> ydef_count d = None \<and> t \<noteq> ''YDEF'') \<and>
     (start_date d1 = None \<longleftrightarrow> start_date d = None \<and> t \<noteq> ''TDEF'')"
proof -
  consider "t = ''UNDEF''" | "t = ''XDEF''" | "t = ''YDEF''" | "t = ''TDEF''"
    | "t \<notin> {''UNDEF'', ''XDEF'', ''YDEF'', ''TDEF''}"
    by blast
  then show ?thesis
  proof cases
    case 1
    with t d1 obtain v where "d1 = d\<lparr>undef := Some v\<rparr>"
      using read_line_UNDEF by blast
    with 1 show ?thesis by simp
  next
    case 2
    with t d1 obtain n s i where
      "d1 = d\<lparr>xdef_count := Some n, xdef_start := Some s, xdef_increment := Some i\<rparr>"
      using read_line_XDEF by blast
    with 2 show ?thesis by simp
  next
    case 3
    with t d1 obtain n s i where
      "d1 = d\<lparr>ydef_count := Some n, ydef_start := Some s, ydef_increment := Some i\<rparr>"
      using read_line_YDEF by blast
    with 3 show ?thesis by simp
  next
    case 4
    with t d1 obtain v where "d1 = d\<lparr>start_date := Some v\<rparr>"
      using read_line_TDEF by blast
    with 4 show ?thesis by simp
  next
    case 5
    from read_line_other [OF t 5 d1] 5 show ?thesis by simp
  qed
qed

lemma seen_Cons:
  "leading_token l = Some t \<Longrightarrow> seen k (l # lines) \<longleftrightarrow> t = k \<or> seen k lines"
  by (auto simp: seen_def)

lemma read_lines_Cons_Inr:
  "read_lines sys (l # lines) d = Inr d' \<Longrightarrow>
   \<exists>d1. read_line sys l d = Inr d1 \<and> read_lines sys lines d1 = Inr d'"
  by (simp add: and_then_eq_Inr)

lemma read_lines_returns:
  "\<forall>l \<in> set lines. accepts sys l \<Longrightarrow> \<exists>d'. read_lines sys lines d = Inr d'"
proof (induction lines arbitrary: d)
  case Nil
  then show ?case by simp
next
  case (Cons l lines)
  from Cons.prems obtain d0 where "read_line sys l empty_dict = Inr d0"
    by (auto simp: accepts_def returns_iff)
  from read_line_independent [OF this] obtain d1 where d1: "read_line sys l d = Inr d1"
    by blast
  from Cons.prems have "\<forall>l \<in> set lines. accepts sys l"
    by simp
  from Cons.IH [OF this, of d1] d1 show ?case by simp
qed

lemma read_lines_undef:
  "read_lines sys lines d = Inr d' \<Longrightarrow>
   (undef d' = None \<longleftrightarrow> undef d = None \<and> \<not> seen ''UNDEF'' lines)"
proof (induction lines arbitrary: d)
  case Nil
  then show ?case by (simp add: seen_def)
next
  case (Cons l lines)
  from read_lines_Cons_Inr [OF Cons.prems] obtain d1 where
    d1: "read_line sys l d = Inr d1" and r: "read_lines sys lines d1 = Inr d'"
    by blast
  from d1 obtain t where t: "leading_token l = Some t"
    by (cases "leading_token l") (simp_all add: read_line_blank)
  from read_line_step [OF d1 t]
  have "undef d1 = None \<longleftrightarrow> undef d = None \<and> t \<noteq> ''UNDEF''" by simp
  with Cons.IH [OF r] show ?case
    by (simp add: seen_Cons [OF t])
qed

lemma read_lines_xdef:
  "read_lines sys lines d = Inr d' \<Longrightarrow>
   (xdef_count d' = None \<longleftrightarrow> xdef_count d = None \<and> \<not> seen ''XDEF'' lines)"
proof (induction lines arbitrary: d)
  case Nil
  then show ?case by (simp add: seen_def)
next
  case (Cons l lines)
  from read_lines_Cons_Inr [OF Cons.prems] obtain d1 where
    d1: "read_line sys l d = Inr d1" and r: "read_lines sys lines d1 = Inr d'"
    by blast
  from d1 obtain t where t: "leading_token l = Some t"
    by (cases "leading_token l") (simp_all add: read_line_blank)
  from read_line_step [OF d1 t]
  have "xdef_count d1 = None \<longleftrightarrow> xdef_count d = None \<and> t \<noteq> ''XDEF''" by simp
  with Cons.IH [OF r] show ?case
    by (simp add: seen_Cons [OF t])
qed

lemma read_lines_ydef:
  "read_lines sys lines d = Inr d' \<Longrightarrow>
   (ydef_count d' = None \<longleftrightarrow> ydef_count d = None \<and> \<not> seen ''YDEF'' lines)"
proof (induction lines arbitrary: d)
  case Nil
  then show ?case by (simp add: seen_def)
next
  case (Cons l lines)
  from read_lines_Cons_Inr [OF Cons.prems] obtain d1 where
    d1: "read_line sys l d = Inr d1" and r: "read_lines sys lines d1 = Inr d'"
    by blast
  from d1 obtain t where t: "leading_token l = Some t"
    by (cases "leading_token l") (simp_all add: read_line_blank)
  from read_line_step [OF d1 t]
  have "ydef_count d1 = None \<longleftrightarrow> ydef_count d = None \<and> t \<noteq> ''YDEF''" by simp
  with Cons.IH [OF r] show ?case
    by (simp add: seen_Cons [OF t])
qed

lemma read_lines_tdef:
  "read_lines sys lines d = Inr d' \<Longrightarrow>
   (start_date d' = None \<longleftrightarrow> start_date d = None \<and> \<not> seen ''TDEF'' lines)"
proof (induction lines arbitrary: d)
  case Nil
  then show ?case by (simp add: seen_def)
next
  case (Cons l lines)
  from read_lines_Cons_Inr [OF Cons.prems] obtain d1 where
    d1: "read_line sys l d = Inr d1" and r: "read_lines sys lines d1 = Inr d'"
    by blast
  from d1 obtain t where t: "leading_token l = Some t"
    by (cases "leading_token l") (simp_all add: read_line_blank)
  from read_line_step [OF d1 t]
  have "start_date d1 = None \<longleftrightarrow> start_date d = None \<and> t \<noteq> ''TDEF''" by simp
  with Cons.IH [OF r] show ?case
    by (simp add: seen_Cons [OF t])
qed

text \<open>
  C3, as the code has it. A keyword that is never seen raises nothing: when each line of
  the text is one that the parser accepts, the parser returns a dictionary, and that
  dictionary lacks the key \<open>undef\<close>, \<open>xdef_count\<close>, \<open>ydef_count\<close> or
  \<open>start_date\<close> exactly when UNDEF, XDEF, YDEF or TDEF is never the leading token of
  a line.
\<close>

theorem read_description_missing_keyword:
  assumes "open_lines sys descriptor_file w = Inr lines"
      and "\<forall>l \<in> set lines. accepts sys l"
  shows "\<exists>d. read_description sys descriptor_file w = Inr d \<and>
     (undef d = None \<longleftrightarrow> \<not> seen ''UNDEF'' lines) \<and>
     (xdef_count d = None \<longleftrightarrow> \<not> seen ''XDEF'' lines) \<and>
     (ydef_count d = None \<longleftrightarrow> \<not> seen ''YDEF'' lines) \<and>
     (start_date d = None \<longleftrightarrow> \<not> seen ''TDEF'' lines)"
proof -
  from read_lines_returns [OF assms(2)] obtain d where
    d: "read_lines sys lines empty_dict = Inr d" by blast
  have "read_description sys descriptor_file w = Inr d"
    using assms(1) d by (simp add: read_description_def)
  moreover have "undef d = None \<longleftrightarrow> \<not> seen ''UNDEF'' lines"
    using read_lines_undef [OF d] by (simp add: empty_dict_def)
  moreover have "xdef_count d = None \<longleftrightarrow> \<not> seen ''XDEF'' lines"
    using read_lines_xdef [OF d] by (simp add: empty_dict_def)
  moreover have "ydef_count d = None \<longleftrightarrow> \<not> seen ''YDEF'' lines"
    using read_lines_ydef [OF d] by (simp add: empty_dict_def)
  moreover have "start_date d = None \<longleftrightarrow> \<not> seen ''TDEF'' lines"
    using read_lines_tdef [OF d] by (simp add: empty_dict_def)
  ultimately show ?thesis by simp
qed

theorem read_description_missing_keyword_witness:
  "open_lines example_sys ''work/data_descriptor.txt'' no_undef_disk = Inr no_undef_lines \<and>
   list_all (accepts example_sys) no_undef_lines \<and>
   \<not> seen ''UNDEF'' no_undef_lines \<and> seen ''XDEF'' no_undef_lines \<and>
   seen ''YDEF'' no_undef_lines \<and> seen ''TDEF'' no_undef_lines \<and>
   (\<exists>d. read_description example_sys ''work/data_descriptor.txt'' no_undef_disk = Inr d \<and>
      undef d = None \<and> xdef_count d \<noteq> None \<and> ydef_count d \<noteq> None \<and> start_date d \<noteq> None)"
proof -
  have o: "open_lines example_sys ''work/data_descriptor.txt'' no_undef_disk
      = Inr no_undef_lines"
    by (simp add: no_undef_disk_def example_sys_def empty_disk_def)
  have a: "list_all (accepts example_sys) no_undef_lines"
    by code_simp
  then have a': "\<forall>l \<in> set no_undef_lines. accepts example_sys l"
    by (simp add: list_all_iff)
  have k: "\<not> seen ''UNDEF'' no_undef_lines" "seen ''XDEF'' no_undef_lines"
    "seen ''YDEF'' no_undef_lines" "seen ''TDEF'' no_undef_lines"
    by code_simp+
  from read_description_missing_keyword [OF o a'] k o a show ?thesis by auto
qed

text \<open>
  C3 as stated fails. The descriptor of the example without its UNDEF line is parsed
  without an error, into a dictionary that has no key \<open>undef\<close>.
\<close>

theorem missing_undef_counterexample:
  "\<not> seen ''UNDEF'' no_undef_lines \<and>
   read_description example_sys ''work/data_descriptor.txt'' no_undef_disk =
     Inr \<lparr>undef = None, xdef_count = Some 2, xdef_start = Some (1 / 8),
       xdef_increment = Some (1 / 4), ydef_count = Some 2, ydef_start = Some (- 479 / 8),
       ydef_increment = Some (1 / 4),
       start_date = Some \<lparr>dt_year = 1998, dt_month = 1, dt_day = 1\<rparr>,
       little_endian = Some True,
       variable_description = Some ''CMORPH Version 1.o daily precipitation (mm)'',
       title = Some ''CMORPH Version 1.0BETA Version, daily precip from 00Z-24Z''\<rparr>"
  by code_simp

text \<open>
  Lines that the parser does not recognize and that have a word are skipped: the result
  is the one of the text without the line.
\<close>

lemma read_lines_append:
  "read_lines sys (a @ b) d = and_then (read_lines sys a d) (\<lambda>d'. read_lines sys b d')"
  by (induction a arbitrary: d) (simp_all add: and_then_def split: sum.splits)

lemma read_lines_skip_unrecognized:
  assumes "leading_token l = Some t" "t \<notin> set recognized"
  shows "read_lines sys (a @ l # b) d = read_lines sys (a @ b) d"
  using assms by (simp add: read_lines_append read_line_unrecognized)

text \<open>A line without a word, reached without an earlier error, raises IndexError.\<close>

lemma read_lines_blank:
  assumes "leading_token l = None" "read_lines sys a d = Inr d'"
  shows "read_lines sys (a @ l # b) d = Inl IndexError"
  using assms by (simp add: read_lines_append read_line_blank)

text \<open>
  C6. The claim: a line whose leading token is not recognized, a blank line included, is
  ignored. The code ignores such a line only when it has a word. The example descriptor
  is parsed; the same text with a blank line after its first line raises IndexError.
\<close>

theorem blank_line_raises_index_error:
  "read_description example_sys ''work/data_descriptor.txt'' blank_line_disk = Inl IndexError \<and>
   read_description example_sys ''work/data_descriptor.txt'' descriptor_disk =
     Inr \<lparr>undef = Some (- 999), xdef_count = Some 2, xdef_start = Some (1 / 8),
       xdef_increment = Some (1 / 4), ydef_count = Some 2, ydef_start = Some (- 479 / 8),
       ydef_increment = Some (1 / 4),
       start_date = Some \<lparr>dt_year = 1998, dt_month = 1, dt_day = 1\<rparr>,
       little_endian = Some True,
       variable_description = Some ''CMORPH Version 1.o daily precipitation (mm)'',
       title = Some ''CMORPH Version 1.0BETA Version, daily precip from 00Z-24Z''\<rparr>"
  by code_simp

subsection \<open>The pipeline\<close>

lemma writes_return: "writes (io_return x) []"
  by (simp add: writes_def io_return_def)

lemma writes_lift: "writes (io_lift r) []"
  by (simp add: writes_def io_lift_def)

lemma writes_world_op: "writes (world_op f) []"
  by (auto simp: writes_def world_op_def split: prod.splits)

lemma writes_world_read: "writes (world_read f) []"
  by (auto simp: writes_def world_read_def split: prod.splits)

lemma writes_nc_slice: "writes (nc (AssignSlice i data)) [i]"
  by (auto simp: writes_def nc_def slice_indices_def split: prod.splits)

lemma writesD:
  "writes m full \<Longrightarrow> m s = Some (r, s') \<Longrightarrow>
   \<exists>k \<le> length full. slice_indices (snd s') = slice_indices (snd s) @ take k full \<and>
     ((\<exists>x. r = Inr x) \<longrightarrow> k = length full)"
  unfolding writes_def by blast

lemma writes_bind:
  assumes m: "writes m xs" and f: "\<And>x. writes (f x) ys"
  shows "writes (io_bind m f) (xs @ ys)"
  unfolding writes_def
proof (intro allI impI)
  fix s r s''
  assume run: "io_bind m f s = Some (r, s'')"
  show "\<exists>k \<le> length (xs @ ys).
          slice_indices (snd s'') = slice_indices (snd s) @ take k (xs @ ys) \<and>
          ((\<exists>x. r = Inr x) \<longrightarrow> k = length (xs @ ys))"
  proof (cases "m s")
    case None
    with run show ?thesis by (simp add: io_bind_def)
  next
    case (Some p)
    obtain r1 s1 where p: "p = (r1, s1)" by (cases p)
    from writesD [OF m] Some p obtain k where k: "k \<le> length xs"
      "slice_indices (snd s1) = slice_indices (snd s) @ take k xs"
      "(\<exists>x. r1 = Inr x) \<longrightarrow> k = length xs"
      by blast
    show ?thesis
    proof (cases r1)
      case (Inl e)
      with run Some p have "r = Inl e" "s'' = s1" by (simp_all add: io_bind_def)
      with k show ?thesis
        by (intro exI [of _ k]) simp
    next
      case (Inr x)
      with run Some p have "f x s1 = Some (r, s'')" by (simp add: io_bind_def)
      from writesD [OF f this] obtain j where j: "j \<le> length ys"
        "slice_indices (snd s'') = slice_indices (snd s1) @ take j ys"
        "(\<exists>x. r = Inr x) \<longrightarrow> j = length ys"
        by blast
      from k Inr have "k = length xs" by simp
      with k j show ?thesis
        by (intro exI [of _ "length xs + j"]) simp
    qed
  qed
qed

lemma writes_bind_left: "writes m [] \<Longrightarrow> (\<And>x. writes (f x) ys) \<Longrightarrow> writes (io_bind m f) ys"
  using writes_bind [of m "[]" f ys] by simp

lemma writes_bind_right: "writes m xs \<Longrightarrow> (\<And>x. writes (f x) []) \<Longrightarrow> writes (io_bind m f) xs"
  using writes_bind [of m xs f "[]"] by simp

lemma io_bind_lift_Inr: "io_bind (io_lift (Inr v)) f = f v"
  by (rule ext) (simp add: io_bind_def io_lift_def)

text \<open>Downloading and removing files assign no slice.\<close>

lemma writes_download_day: "writes (download_day sys dir year obs ym url day) []"
  unfolding download_day_def Let_def
  by (intro writes_bind_left writes_world_op writes_return)

lemma writes_download_days: "writes (download_days sys dir year obs ym url days files) []"
  by (induction days arbitrary: files)
     (auto intro!: writes_bind_left writes_return writes_download_day)

lemma writes_download_daily_files: "writes (download_daily_files sys dir year month obs) []"
  unfolding download_daily_files_def Let_def
  by (intro writes_bind_left writes_lift writes_download_days)

lemma writes_remove_files_loop: "writes (remove_files_loop sys files) []"
  by (induction files) (auto intro!: writes_bind_left writes_return writes_world_op)

text \<open>One month assigns one slice, at the index of line 289.\<close>

lemma writes_ingest_month:
  assumes "start_date d = Some sd"
  shows "writes (ingest_month sys dir d obs dl rm year month)
           [(year - dt_year sd) * 12 + (month - 1)]"
proof -
  have ti: "time_index d year month = Inr ((year - dt_year sd) * 12 + (month - 1))"
    using assms by (simp add: time_index_def)
  have tail: "writes (io_bind (io_lift (time_index d year month)) (\<lambda>time_index.
     io_bind (nc (AssignSlice time_index data)) (\<lambda>_.
       if dl \<and> rm then remove_files_loop sys fs else io_return ())))
     [(year - dt_year sd) * 12 + (month - 1)]" for data fs
    unfolding ti io_bind_lift_Inr
    by (rule writes_bind_right [OF writes_nc_slice])
       (simp add: writes_remove_files_loop writes_return)
  show ?thesis
    unfolding ingest_month_def
    by (intro writes_bind_left tail)
       (auto intro: writes_download_daily_files writes_return writes_world_read writes_lift)
qed

lemma writes_ingest_months:
  assumes "start_date d = Some sd"
  shows "writes (ingest_months sys dir d obs dl rm year months)
           (map (\<lambda>month. (year - dt_year sd) * 12 + (month - 1)) months)"
proof (induction months)
  case Nil
  show ?case by (simp add: writes_return)
next
  case (Cons m months)
  have "writes (io_bind (ingest_month sys dir d obs dl rm year m)
           (\<lambda>_. ingest_months sys dir d obs dl rm year months))
          ([(year - dt_year sd) * 12 + (m - 1)] @
           map (\<lambda>month. (year - dt_year sd) * 12 + (month - 1)) months)"
    by (rule writes_bind [OF writes_ingest_month [OF assms] Cons.IH])
  then show ?case by simp
qed

lemma writes_ingest_years:
  assumes "start_date d = Some sd"
  shows "writes (ingest_years sys dir d obs dl rm years) (month_indices (dt_year sd) years)"
proof (induction years)
  case Nil
  show ?case by (simp add: writes_return month_indices_def)
next
  case (Cons y years)
  have "writes (io_bind (ingest_months sys dir d obs dl rm y [1 .. 12])
           (\<lambda>_. ingest_years sys dir d obs dl rm years))
          (map (\<lambda>month. (y - dt_year sd) * 12 + (month - 1)) [1 .. 12] @
           month_indices (dt_year sd) years)"
    by (rule writes_bind [OF writes_ingest_months [OF assms] Cons.IH])
  then show ?case by (simp add: month_indices_def)
qed

text \<open>
  C5. The time index of a month is \<open>(year - start_year) * 12 + (month - 1)\<close>, where
  \<open>start_year\<close> is the year of the descriptor's start date: with the start year 1998
  it is 14 for March 1999 and 0 for January 1998. The slices that the loop over the
  years and months assigns have these indices, in the order of the months: every run
  assigns a prefix of them, and a run that ends without an exception all of them.
\<close>

theorem time_index_of_written_months:
  assumes "start_date d = Some sd"
  shows "time_index d year month = Inr ((year - dt_year sd) * 12 + (month - 1)) \<and>
     (dt_year sd = 1998 \<longrightarrow> time_index d 1999 3 = Inr 14 \<and> time_index d 1998 1 = Inr 0) \<and>
     (\<forall>s r s'. ingest_years sys dir d obs dl rm years s = Some (r, s') \<longrightarrow>
         (\<exists>k \<le> length (month_indices (dt_year sd) years).
           slice_indices (snd s') =
             slice_indices (snd s) @ take k (month_indices (dt_year sd) years) \<and>
           (r = Inr () \<longrightarrow> k = length (month_indices (dt_year sd) years))))"
proof (intro conjI allI impI)
  show "time_index d year month = Inr ((year - dt_year sd) * 12 + (month - 1))"
    using assms by (simp add: time_index_def)
next
  assume "dt_year sd = 1998"
  with assms show "time_index d 1999 3 = Inr 14" by (simp add: time_index_def)
next
  assume "dt_year sd = 1998"
  with assms show "time_index d 1998 1 = Inr 0" by (simp add: time_index_def)
next
  fix s r s'
  assume "ingest_years sys dir d obs dl rm years s = Some (r, s')"
  from writesD [OF writes_ingest_years [OF assms] this]
  show "\<exists>k \<le> length (month_indices (dt_year sd) years).
           slice_indices (snd s') =
             slice_indices (snd s) @ take k (month_indices (dt_year sd) years) \<and>
           (r = Inr () \<longrightarrow> k = length (month_indices (dt_year sd) years))"
    by blast
qed

theorem time_index_of_written_months_witness:
  "start_date grid_2x2 = Some \<lparr>dt_year = 1998, dt_month = 1, dt_day = 1\<rparr> \<and>
   time_index grid_2x2 1999 3 = Inr 14 \<and> time_index grid_2x2 1998 1 = Inr 0 \<and>
   ingest_years example_sys ''work'' grid_2x2 ''raw'' False False [1998, 1999] (empty_disk, []) =
     Some (Inr (), (empty_disk, map (\<lambda>i. AssignSlice i [0, 0, 0, 0]) [0 .. 23])) \<and>
   slice_indices (map (\<lambda>i. AssignSlice i [0, 0, 0, 0]) [0 .. 23]) =
     month_indices 1998 [1998, 1999] \<and>
   month_indices 1998 [1998, 1999] = [0 .. 23]"
proof -
  let ?sd = "\<lparr>dt_year = 1998, dt_month = 1, dt_day = 1\<rparr>"
  let ?ops = "map (\<lambda>i. AssignSlice i [0, 0, 0, 0]) [0 .. 23]"
  have sd: "start_date grid_2x2 = Some ?sd"
    by (simp add: grid_2x2_def)
  have run: "ingest_years example_sys ''work'' grid_2x2 ''raw'' False False [1998, 1999]
      (empty_disk, []) = Some (Inr (), (empty_disk, ?ops))"
    by code_simp
  have m: "month_indices 1998 [1998, 1999] = [0 .. 23]"
    by code_simp
  note t = time_index_of_written_months [OF sd, of 1999 3 example_sys "''work''" "''raw''"
      False False "[1998, 1999]"]
  from t have i: "time_index grid_2x2 1999 3 = Inr 14" "time_index grid_2x2 1998 1 = Inr 0"
    by simp_all
  from t run obtain k where "k \<le> length (month_indices 1998 [1998, 1999])"
    "slice_indices (snd (empty_disk, ?ops)) =
       slice_indices (snd (empty_disk, [])) @ take k (month_indices 1998 [1998, 1999])"
    "k = length (month_indices 1998 [1998, 1999])"
    by fastforce
  then have "slice_indices ?ops = month_indices 1998 [1998, 1999]"
    by (simp add: slice_indices_def)
  with sd i run m show ?thesis by simp
qed

text \<open>
  The pipeline never reaches that loop. The call of \<open>_compute_days\<close> at line 253
  passes the keywords \<open>initial_month\<close> and \<open>units_start_year\<close>, which the function
  does not have, and raises TypeError; a call that binds its arguments fails as shown
  above. So \<open>ingest_cmorph_to_netcdf\<close> never ends without an exception.
\<close>

lemma pipeline_call_raises:
  "call_compute_days [y, n] [(''initial_month'', m), (''units_start_year'', u)] = Inl TypeError"
  by (simp add: call_compute_days_def bind_arguments_def)

lemma call_compute_days_fails: "\<exists>e. call_compute_days args kwargs = Inl e"
proof (cases "bind_arguments [''year_initial'', ''year_final'', ''year_since'']
                 [(''year_since'', 1900)] args kwargs")
  case (Inl e)
  then show ?thesis by (simp add: call_compute_days_def)
next
  case (Inr vs)
  then show ?thesis
    using compute_days_never_returns by (simp add: call_compute_days_def)
qed

lemma io_bind_Inr_elim:
  assumes "io_bind m f s = Some (Inr y, s'')"
  obtains x s' where "m s = Some (Inr x, s')" "f x s' = Some (Inr y, s'')"
  using assms by (auto simp: io_bind_def split: option.splits sum.splits prod.splits)

lemma fill_dataset_never_completes:
  "fill_dataset sys dir d years obs dl rm s \<noteq> Some (Inr (), s')"
proof
  assume "fill_dataset sys dir d years obs dl rm s = Some (Inr (), s')"
  then show False
    unfolding fill_dataset_def Let_def
    by (elim io_bind_Inr_elim) (simp add: io_lift_def pipeline_call_raises)
qed

lemma ingest_never_completes:
  "ingest_cmorph_to_netcdf sys dir file nc_file name obs dl rm w \<noteq> Some (Inr (), w')"
proof
  assume "ingest_cmorph_to_netcdf sys dir file nc_file name obs dl rm w = Some (Inr (), w')"
  then obtain s' where "io_bind (if dl then download_data_descriptor sys
        (dir @ os_sep sys @ ''data_descriptor.txt'') else io_return ()) (\<lambda>_.
      io_bind (world_read (read_description sys (dir @ os_sep sys @ ''data_descriptor.txt'')))
        (\<lambda>data_desc.
      io_bind (if dl \<and> rm
               then world_op (os_remove sys (dir @ os_sep sys @ ''data_descriptor.txt''))
               else io_return ()) (\<lambda>_.
      io_bind (world_op (nc_create sys nc_file)) (\<lambda>_.
        (\<lambda>s. case fill_dataset sys dir data_desc get_years obs dl rm s of
                None \<Rightarrow> None
              | Some (r, (w', ops)) \<Rightarrow> Some (r, (nc_close sys nc_file ops w', []))))))) (w, [])
      = Some (Inr (), s')"
    by (auto simp: ingest_cmorph_to_netcdf_def Let_def split: option.splits prod.splits)
  then show False
    by (elim io_bind_Inr_elim)
       (auto simp: fill_dataset_never_completes split: option.splits prod.splits)
qed

text \<open>
  On the example machine, with nothing to download: the descriptor is read, the dataset
  is created with its dimensions, title, coordinate variables and their units, and the
  call of \<open>_compute_days\<close> raises TypeError.
\<close>

lemma ingest_example:
  "ingest_cmorph_to_netcdf example_sys ''work'' ''other.ctl'' ''out.nc''
     ''CMORPH_V1.0_RAW_0.25deg-DLY_00Z.ctl'' ''raw'' False False descriptor_disk =
   Some (Inl TypeError, descriptor_disk\<lparr>datasets :=
     [(''out.nc'',
       [CreateDimension ''time'' None, CreateDimension ''lon'' (Some 2),
        CreateDimension ''lat'' (Some 2),
        SetTitle ''CMORPH Version 1.0BETA Version, daily precip from 00Z-24Z'',
        CreateVariable ''time'' ''i4'' [''time''] None,
        CreateVariable ''lon'' ''f4'' [''lon''] None,
        CreateVariable ''lat'' ''f4'' [''lat''] None,
        SetAttr ''time'' ''units'' ''days since 1800-01-01 00:00:00'',
        SetAttr ''lon'' ''units'' ''degrees east'',
        SetAttr ''lat'' ''units'' ''degrees north''])]\<rparr>)"
  by code_simp

text \<open>
  The pipeline opens one text file. Its outcome depends on \<open>open\<close> only at the
  path of \<open>data_descriptor.txt\<close> in the work directory: the monthly sums, the
  downloads and the removals open no text file.
\<close>

lemma read_line_open_lines: "read_line (sys\<lparr>open_lines := ol\<rparr>) line d = read_line sys line d"
  by (simp add: read_line_def Let_def cong: if_cong)

lemma read_lines_open_lines: "read_lines (sys\<lparr>open_lines := ol\<rparr>) lines = read_lines sys lines"
proof (induction lines)
  case Nil
  show ?case by (rule ext) simp
next
  case (Cons l lines)
  show ?case by (rule ext) (simp add: read_line_open_lines Cons.IH)
qed

lemma read_description_open_lines:
  "ol path w = open_lines sys path w \<Longrightarrow>
   read_description (sys\<lparr>open_lines := ol\<rparr>) path w = read_description sys path w"
  by (simp add: read_description_def read_lines_open_lines)

lemma read_daily_grid_open_lines:
  "read_daily_grid (sys\<lparr>open_lines := ol\<rparr>) w d path = read_daily_grid sys w d path"
  by (simp add: read_daily_grid_def Let_def cong: if_cong)

lemma sum_files_open_lines:
  "sum_files (sys\<lparr>open_lines := ol\<rparr>) w dir d y m files = sum_files sys w dir d y m files"
proof (induction files)
  case Nil
  show ?case by (rule ext) simp
next
  case (Cons f files)
  show ?case
    by (rule ext) (simp add: read_daily_grid_open_lines Cons.IH cong: if_cong)
qed

lemma monthly_sum_open_lines:
  "read_daily_cmorph_to_monthly_sum (sys\<lparr>open_lines := ol\<rparr>) w dir d y m =
   read_daily_cmorph_to_monthly_sum sys w dir d y m"
  by (simp add: read_daily_cmorph_to_monthly_sum_def sum_files_open_lines)

lemma download_day_open_lines:
  "download_day (sys\<lparr>open_lines := ol\<rparr>) dir year obs ym url day =
   download_day sys dir year obs ym url day"
  by (simp add: download_day_def Let_def cong: if_cong)

lemma download_days_open_lines:
  "download_days (sys\<lparr>open_lines := ol\<rparr>) dir year obs ym url days files =
   download_days sys dir year obs ym url days files"
  by (induction days arbitrary: files) (simp_all add: download_day_open_lines)

lemma download_daily_files_open_lines:
  "download_daily_files (sys\<lparr>open_lines := ol\<rparr>) dir year month obs =
   download_daily_files sys dir year month obs"
  by (simp add: download_daily_files_def download_days_open_lines Let_def cong: if_cong)

lemma remove_files_loop_open_lines:
  "remove_files_loop (sys\<lparr>open_lines := ol\<rparr>) files = remove_files_loop sys files"
  by (induction files) simp_all

lemma ingest_month_open_lines:
  "ingest_month (sys\<lparr>open_lines := ol\<rparr>) dir d obs dl rm year month =
   ingest_month sys dir d obs dl rm year month"
  by (simp add: ingest_month_def download_daily_files_open_lines monthly_sum_open_lines
      remove_files_loop_open_lines cong: if_cong)

lemma ingest_months_open_lines:
  "ingest_months (sys\<lparr>open_lines := ol\<rparr>) dir d obs dl rm year months =
   ingest_months sys dir d obs dl rm year months"
  by (induction months) (simp_all add: ingest_month_open_lines)

lemma ingest_years_open_lines:
  "ingest_years (sys\<lparr>open_lines := ol\<rparr>) dir d obs dl rm years =
   ingest_years sys dir d obs dl rm years"
  by (induction years) (simp_all add: ingest_months_open_lines)

lemma fill_dataset_open_lines:
  "fill_dataset (sys\<lparr>open_lines := ol\<rparr>) dir d years obs dl rm =
   fill_dataset sys dir d years obs dl rm"
  by (simp add: fill_dataset_def ingest_years_open_lines Let_def)

lemma ingest_open_lines:
  assumes "\<And>w'. ol (dir @ os_sep sys @ ''data_descriptor.txt'') w' =
     open_lines sys (dir @ os_sep sys @ ''data_descriptor.txt'') w'"
  shows "ingest_cmorph_to_netcdf (sys\<lparr>open_lines := ol\<rparr>) dir file nc_file name obs dl rm w =
     ingest_cmorph_to_netcdf sys dir file nc_file name obs dl rm w"
proof -
  have r: "world_read (read_description (sys\<lparr>open_lines := ol\<rparr>)
        (dir @ os_sep sys @ ''data_descriptor.txt'')) =
      (world_read (read_description sys (dir @ os_sep sys @ ''data_descriptor.txt''))
        :: ('a \<times> nc_op list, data_desc) prog)"
    by (rule ext)
       (simp add: world_read_def assms
          read_description_open_lines [of ol "dir @ os_sep sys @ ''data_descriptor.txt''" _ sys]
          split: prod.splits)
  show ?thesis
    by (simp add: ingest_cmorph_to_netcdf_def r fill_dataset_open_lines
        download_data_descriptor_def Let_def
        cong: if_cong option.case_cong prod.case_cong)
qed

text \<open>
  C10. Two calls of \<open>ingest_cmorph_to_netcdf\<close> that differ only in the argument
  \<open>descriptor_file\<close> have the same outcome, exception or not, and leave the same
  files: the first statement overwrites the parameter with the path of
  \<open>data_descriptor.txt\<close> in the work directory, and the descriptor is retrieved to
  and read from that path. When files are downloaded and the retrieval to that path
  fails, the run fails with that error. Otherwise the descriptor is read at that path:
  if the read fails, the run fails with its error; if it gives a dictionary, the run
  goes on with that dictionary (it removes the file at that path when it was downloaded
  and removal is asked for, creates the dataset, fills it from the dictionary and closes
  it). What any other text file holds does not matter: an \<open>open\<close> that agrees with
  the machine's at that path gives the same outcome.
\<close>

theorem ingest_ignores_descriptor_file:
  "ingest_cmorph_to_netcdf sys cmorph_dir descriptor_file netcdf_file
     data_descriptor_file_name obs_type download_files remove_files w =
   ingest_cmorph_to_netcdf sys cmorph_dir descriptor_file' netcdf_file
     data_descriptor_file_name obs_type download_files remove_files w \<and>
   (\<forall>e w1. download_files \<and>
       urlretrieve sys file_url (cmorph_dir @ os_sep sys @ ''data_descriptor.txt'') w =
         (Inl e, w1) \<longrightarrow>
     ingest_cmorph_to_netcdf sys cmorph_dir descriptor_file netcdf_file
       data_descriptor_file_name obs_type download_files remove_files w = Some (Inl e, w1)) \<and>
   (\<forall>e w1. (if download_files
       then urlretrieve sys file_url (cmorph_dir @ os_sep sys @ ''data_descriptor.txt'') w =
         (Inr (), w1)
       else w1 = w) \<and>
       read_description sys (cmorph_dir @ os_sep sys @ ''data_descriptor.txt'') w1 = Inl e \<longrightarrow>
     ingest_cmorph_to_netcdf sys cmorph_dir descriptor_file netcdf_file
       data_descriptor_file_name obs_type download_files remove_files w = Some (Inl e, w1)) \<and>
   (\<forall>data_desc w1. (if download_files
       then urlretrieve sys file_url (cmorph_dir @ os_sep sys @ ''data_descriptor.txt'') w =
         (Inr (), w1)
       else w1 = w) \<and>
       read_description sys (cmorph_dir @ os_sep sys @ ''data_descriptor.txt'') w1 =
         Inr data_desc \<longrightarrow>
     ingest_cmorph_to_netcdf sys cmorph_dir descriptor_file netcdf_file
       data_descriptor_file_name obs_type download_files remove_files w =
       (case (if download_files \<and> remove_files
              then os_remove sys (cmorph_dir @ os_sep sys @ ''data_descriptor.txt'') w1
              else (Inr (), w1)) of
          (Inl e, w2) \<Rightarrow> Some (Inl e, w2)
        | (Inr u, w2) \<Rightarrow>
            (case nc_create sys netcdf_file w2 of
               (Inl e, w3) \<Rightarrow> Some (Inl e, w3)
             | (Inr u', w3) \<Rightarrow>
                 (case fill_dataset sys cmorph_dir data_desc get_years obs_type download_files
                         remove_files (w3, []) of
                    None \<Rightarrow> None
                  | Some (r, (w4, ops)) \<Rightarrow> Some (r, nc_close sys netcdf_file ops w4))))) \<and>
   (\<forall>ol. (\<forall>w'. ol (cmorph_dir @ os_sep sys @ ''data_descriptor.txt'') w' =
             open_lines sys (cmorph_dir @ os_sep sys @ ''data_descriptor.txt'') w') \<longrightarrow>
     ingest_cmorph_to_netcdf (sys\<lparr>open_lines := ol\<rparr>) cmorph_dir descriptor_file netcdf_file
       data_descriptor_file_name obs_type download_files remove_files w =
     ingest_cmorph_to_netcdf sys cmorph_dir descriptor_file netcdf_file
       data_descriptor_file_name obs_type download_files remove_files w)"
  using ingest_open_lines [of _ cmorph_dir sys descriptor_file netcdf_file
      data_descriptor_file_name obs_type download_files remove_files w]
  by (auto simp: ingest_cmorph_to_netcdf_def Let_def io_bind_def io_return_def world_op_def
      world_read_def download_data_descriptor_def
      split: option.splits sum.splits prod.splits if_splits)

theorem ingest_ignores_descriptor_file_witness:
  "urlretrieve example_sys file_url (''work'' @ os_sep example_sys @ ''data_descriptor.txt'')
     empty_disk = (Inl OSError, empty_disk) \<and>
   ingest_cmorph_to_netcdf example_sys ''work'' ''other.ctl'' ''out.nc''
     ''CMORPH_V1.0_RAW_0.25deg-DLY_00Z.ctl'' ''raw'' True False empty_disk =
     Some (Inl OSError, empty_disk) \<and>
   read_description example_sys (''work'' @ os_sep example_sys @ ''data_descriptor.txt'')
     empty_disk = Inl OSError \<and>
   ingest_cmorph_to_netcdf example_sys ''work'' ''other.ctl'' ''out.nc''
     ''CMORPH_V1.0_RAW_0.25deg-DLY_00Z.ctl'' ''raw'' False False empty_disk =
     Some (Inl OSError, empty_disk) \<and>
   read_description example_sys (''work'' @ os_sep example_sys @ ''data_descriptor.txt'')
     descriptor_disk = Inr parsed_descriptor \<and>
   ingest_cmorph_to_netcdf example_sys ''work'' ''other.ctl'' ''out.nc''
     ''CMORPH_V1.0_RAW_0.25deg-DLY_00Z.ctl'' ''raw'' False False descriptor_disk =
     Some (Inl TypeError, descriptor_disk\<lparr>datasets :=
       [(''out.nc'',
         [CreateDimension ''time'' None, CreateDimension ''lon'' (Some 2),
          CreateDimension ''lat'' (Some 2),
          SetTitle ''CMORPH Version 1.0BETA Version, daily precip from 00Z-24Z'',
          CreateVariable ''time'' ''i4'' [''time''] None,
          CreateVariable ''lon'' ''f4'' [''lon''] None,
          CreateVariable ''lat'' ''f4'' [''lat''] None,
          SetAttr ''time'' ''units'' ''days since 1800-01-01 00:00:00'',
          SetAttr ''lon'' ''units'' ''degrees east'',
          SetAttr ''lat'' ''units'' ''degrees north''])]\<rparr>)"
proof -
  note all = ingest_ignores_descriptor_file [where sys = example_sys and cmorph_dir = "''work''"
      and descriptor_file = "''other.ctl''" and netcdf_file = "''out.nc''"
      and data_descriptor_file_name = "''CMORPH_V1.0_RAW_0.25deg-DLY_00Z.ctl''"
      and obs_type = "''raw''" and remove_files = False]
  have u: "urlretrieve example_sys file_url
      (''work'' @ os_sep example_sys @ ''data_descriptor.txt'') empty_disk =
      (Inl OSError, empty_disk)"
    by (simp add: example_sys_def)
  have r0: "read_description example_sys
      (''work'' @ os_sep example_sys @ ''data_descriptor.txt'') empty_disk = Inl OSError"
    by (simp add: read_description_def example_sys_def empty_disk_def)
  have r1: "read_description example_sys
      (''work'' @ os_sep example_sys @ ''data_descriptor.txt'') descriptor_disk =
      Inr parsed_descriptor"
    by code_simp
  have f: "fill_dataset example_sys ''work'' parsed_descriptor get_years ''raw'' False False
      (descriptor_disk, []) =
      Some (Inl TypeError, (descriptor_disk,
        [CreateDimension ''time'' None, CreateDimension ''lon'' (Some 2),
          CreateDimension ''lat'' (Some 2),
          SetTitle ''CMORPH Version 1.0BETA Version, daily precip from 00Z-24Z'',
          CreateVariable ''time'' ''i4'' [''time''] None,
          CreateVariable ''lon'' ''f4'' [''lon''] None,
          CreateVariable ''lat'' ''f4'' [''lat''] None,
          SetAttr ''time'' ''units'' ''days since 1800-01-01 00:00:00'',
          SetAttr ''lon'' ''units'' ''degrees east'',
          SetAttr ''lat'' ''units'' ''degrees north'']))"
    by code_simp
  have c: "nc_create example_sys ''out.nc'' descriptor_disk = (Inr (), descriptor_disk)"
    by (simp add: example_sys_def)
  have d: "datasets descriptor_disk = []"
    by (simp add: descriptor_disk_def empty_disk_def)
  have k: "nc_close example_sys ''out.nc'' ops descriptor_disk =
      descriptor_disk\<lparr>datasets := [(''out.nc'', ops)]\<rparr>" for ops
    by (simp add: example_sys_def d)
  from all [where download_files = True and w = empty_disk,
      THEN conjunct2, THEN conjunct1, rule_format, of OSError empty_disk] u
  have a1: "ingest_cmorph_to_netcdf example_sys ''work'' ''other.ctl'' ''out.nc''
     ''CMORPH_V1.0_RAW_0.25deg-DLY_00Z.ctl'' ''raw'' True False empty_disk =
     Some (Inl OSError, empty_disk)"
    by simp
  from all [where download_files = False and w = empty_disk,
      THEN conjunct2, THEN conjunct2, THEN conjunct1, rule_format, of empty_disk OSError] r0
  have a2: "ingest_cmorph_to_netcdf example_sys ''work'' ''other.ctl'' ''out.nc''
     ''CMORPH_V1.0_RAW_0.25deg-DLY_00Z.ctl'' ''raw'' False False empty_disk =
     Some (Inl OSError, empty_disk)"
    by simp
  from all [where download_files = False and w = descriptor_disk,
      THEN conjunct2, THEN conjunct2, THEN conjunct2, THEN conjunct1, rule_format,
      of descriptor_disk parsed_descriptor] r1
  have a3: "ingest_cmorph_to_netcdf example_sys ''work'' ''other.ctl'' ''out.nc''
     ''CMORPH_V1.0_RAW_0.25deg-DLY_00Z.ctl'' ''raw'' False False descriptor_disk =
     Some (Inl TypeError, descriptor_disk\<lparr>datasets :=
       [(''out.nc'',
         [CreateDimension ''time'' None, CreateDimension ''lon'' (Some 2),
          CreateDimension ''lat'' (Some 2),
          SetTitle ''CMORPH Version 1.0BETA Version, daily precip from 00Z-24Z'',
          CreateVariable ''time'' ''i4'' [''time''] None,
          CreateVariable ''lon'' ''f4'' [''lon''] None,
          CreateVariable ''lat'' ''f4'' [''lat''] None,
          SetAttr ''time'' ''units'' ''days since 1800-01-01 00:00:00'',
          SetAttr ''lon'' ''units'' ''degrees east'',
          SetAttr ''lat'' ''units'' ''degrees north''])]\<rparr>)"
    by (simp add: c f k)
  from u a1 r0 a2 r1 a3 show ?thesis by blast
qed

end
